theory Spec2Isabelle
  imports Complex_Main "HOL-Library.Signed_Division"
begin

section \<open>The HTTP boundary\<close>

text \<open>
  The program is one Go file, \<^verbatim>\<open>main.go\<close>: four HTTP handlers, two middlewares, a
  background loop and \<^verbatim>\<open>main\<close>. Handlers are modelled by explicit state passing: a
  handler takes the shared state, the clock reading of the request, the request and the
  response writer, and returns the new state and the response writer after its writes.

  Instants and durations are \<^typ>\<open>int\<close> nanoseconds, as Go's \<^verbatim>\<open>time.Duration\<close>;
  the database clock \<^verbatim>\<open>NOW()\<close> is read in the same unit.
\<close>

definition Second :: int where "Second = 1000000000"
definition Minute :: int where "Minute = 60 * Second"
definition Hour :: int where "Hour = 60 * Minute"

text \<open>\<^verbatim>\<open>time.Time.Unix()\<close>: whole seconds since the epoch.\<close>

definition Unix :: "int \<Rightarrow> int" where
  "Unix t = t div Second"

definition StatusOK :: nat where "StatusOK = 200"
definition StatusCreated :: nat where "StatusCreated = 201"
definition StatusBadRequest :: nat where "StatusBadRequest = 400"
definition StatusUnauthorized :: nat where "StatusUnauthorized = 401"
definition StatusMethodNotAllowed :: nat where "StatusMethodNotAllowed = 405"
definition StatusTooManyRequests :: nat where "StatusTooManyRequests = 429"
definition StatusInternalServerError :: nat where "StatusInternalServerError = 500"

text \<open>The structs of the source.\<close>

record Token =
  Token_Token :: string
  Token_ExpireAt :: int

record InvitationCode =
  InvitationCode_Code :: string
  InvitationCode_Used :: bool

record User =
  User_Email :: string
  User_Password :: string
  User_Code :: string

record Invitation =
  Invitation_ID :: int
  Invitation_Email :: string

text \<open>
  A request, as far as the handlers read it. \<open>Body\<close> is what
  \<^verbatim>\<open>json.NewDecoder(r.Body).Decode(&user)\<close> leaves in \<^verbatim>\<open>user\<close> (the zero struct when
  the body does not decode: the handlers ignore the decoder's error).
\<close>

record Request =
  Method :: string
  URL_Path :: string
  RemoteAddr :: string
  Header :: "string \<rightharpoonup> string list"
  Form :: "string \<rightharpoonup> string list"
  PostForm :: "string \<rightharpoonup> string list"
  Body :: User

text \<open>\<^verbatim>\<open>Header.Get\<close>, \<^verbatim>\<open>FormValue\<close>, \<^verbatim>\<open>PostFormValue\<close>: the first value of the key, or
  the empty string.\<close>

definition first_value :: "(string \<rightharpoonup> string list) \<Rightarrow> string \<Rightarrow> string" where
  "first_value m k = (case m k of None \<Rightarrow> [] | Some [] \<Rightarrow> [] | Some (v # _) \<Rightarrow> v)"

definition Header_Get :: "Request \<Rightarrow> string \<Rightarrow> string" where
  "Header_Get r k = first_value (Header r) k"

definition FormValue :: "Request \<Rightarrow> string \<Rightarrow> string" where
  "FormValue r k = first_value (Form r) k"

definition PostFormValue :: "Request \<Rightarrow> string \<Rightarrow> string" where
  "PostFormValue r k = first_value (PostForm r) k"

text \<open>
  The response writer: the status line is fixed by the first \<^verbatim>\<open>WriteHeader\<close> or, failing
  that, by the first write (which sends 200); a later \<^verbatim>\<open>WriteHeader\<close> changes nothing.
  The body is the sequence of things written; JSON encodings are kept as the encoded value.
\<close>

datatype chunk =
  Text string
  | JsonToken Token
  | JsonInvitationCode InvitationCode
  | JsonUser User

record ResponseWriter =
  status :: "nat option"
  body :: "chunk list"

definition new_response :: ResponseWriter where
  "new_response = \<lparr>status = None, body = []\<rparr>"

definition WriteHeader :: "nat \<Rightarrow> ResponseWriter \<Rightarrow> ResponseWriter" where
  "WriteHeader c w = (if status w = None then w\<lparr>status := Some c\<rparr> else w)"

definition Write :: "chunk \<Rightarrow> ResponseWriter \<Rightarrow> ResponseWriter" where
  "Write x w = (let w' = WriteHeader StatusOK w in w'\<lparr>body := body w' @ [x]\<rparr>)"

text \<open>\<^verbatim>\<open>http.Error(w, msg, code)\<close> writes the status and the message followed by a newline.\<close>

definition http_Error :: "string \<Rightarrow> nat \<Rightarrow> ResponseWriter \<Rightarrow> ResponseWriter" where
  "http_Error msg c w = Write (Text (msg @ [CHR 0x0A])) (WriteHeader c w)"

section \<open>The persistent store\<close>

text \<open>
  The three tables the statements of the source name. The schema is not part of the
  repository: \<open>id\<close> and \<open>expires_at\<close> are never written by the program, so they come from
  the schema's column defaults (see \<open>Env\<close>), and \<open>expires_at\<close> may be NULL
  (\<open>None\<close>), in which case every comparison with it is not true.
\<close>

record invitation_row =
  ic_id :: int
  ic_code :: string
  ic_email :: string
  ic_used :: bool
  ic_expires_at :: "int option"

record user_row =
  u_id :: int
  u_email :: string
  u_password_hash :: string

record session_row =
  s_user_id :: int
  s_token :: string

record DB =
  invitation_codes :: "invitation_row list"
  users :: "user_row list"
  sessions :: "session_row list"

text \<open>The database calls of the source, one name per call site.\<close>

datatype db_call =
  Insert_invitation_code
  | Select_codeExists
  | Select_isCodeUsed
  | Select_isValidCode
  | Insert_user
  | Update_used
  | Select_password_hash
  | Select_user_id
  | Insert_session
  | Select_expired

text \<open>
  What the world outside the program decides while one request is served: whether a
  database call fails (\<open>Some\<close> the error text), the column defaults of the schema, and the
  library functions whose results the program only passes on (bcrypt, the random source
  with its base64 encoding).
\<close>

record Env =
  db_fails :: "db_call \<Rightarrow> string option"
  default_id :: int
  default_expires_at :: "int option"
  rand_code :: "string + string"
  bcrypt_GenerateFromPassword :: "string \<Rightarrow> string + string"
  bcrypt_CompareHashAndPassword :: "string \<Rightarrow> string \<Rightarrow> bool"

text \<open>\<^verbatim>\<open>SELECT EXISTS(SELECT 1 FROM invitation_codes WHERE code=$1 AND email=$2)\<close>\<close>

definition select_codeExists :: "Env \<Rightarrow> DB \<Rightarrow> string \<Rightarrow> string \<Rightarrow> string + bool" where
  "select_codeExists env d c e =
     (case db_fails env Select_codeExists of
        Some err \<Rightarrow> Inl err
      | None \<Rightarrow> Inr (list_ex (\<lambda>row. ic_code row = c \<and> ic_email row = e) (invitation_codes d)))"

text \<open>\<^verbatim>\<open>SELECT EXISTS(SELECT 1 FROM invitation_codes WHERE code=$1 AND used=true AND email=$2)\<close>\<close>

definition select_isCodeUsed :: "Env \<Rightarrow> DB \<Rightarrow> string \<Rightarrow> string \<Rightarrow> string + bool" where
  "select_isCodeUsed env d c e =
     (case db_fails env Select_isCodeUsed of
        Some err \<Rightarrow> Inl err
      | None \<Rightarrow> Inr (list_ex (\<lambda>row. ic_code row = c \<and> ic_used row = True \<and> ic_email row = e)
                 (invitation_codes d)))"

text \<open>\<^verbatim>\<open>SELECT EXISTS(SELECT 1 FROM invitation_codes WHERE code=$1 AND used=false AND email=$2
  AND expires_at > NOW() - INTERVAL '2 minutes')\<close>\<close>

definition select_isValidCode :: "Env \<Rightarrow> DB \<Rightarrow> int \<Rightarrow> string \<Rightarrow> string \<Rightarrow> string + bool" where
  "select_isValidCode env d now c e =
     (case db_fails env Select_isValidCode of
        Some err \<Rightarrow> Inl err
      | None \<Rightarrow> Inr (list_ex (\<lambda>row. ic_code row = c \<and> ic_used row = False \<and> ic_email row = e \<and>
                   (case ic_expires_at row of None \<Rightarrow> False | Some x \<Rightarrow> x > now - 2 * Minute))
                 (invitation_codes d)))"

text \<open>\<^verbatim>\<open>INSERT INTO invitation_codes (code, email, used) VALUES ($1, $2, false)\<close>\<close>

definition insert_invitation_code :: "Env \<Rightarrow> DB \<Rightarrow> string \<Rightarrow> string \<Rightarrow> string + DB" where
  "insert_invitation_code env d c e =
     (case db_fails env Insert_invitation_code of
        Some err \<Rightarrow> Inl err
      | None \<Rightarrow> Inr (d\<lparr>invitation_codes := invitation_codes d @
                 [\<lparr>ic_id = default_id env, ic_code = c, ic_email = e, ic_used = False,
                   ic_expires_at = default_expires_at env\<rparr>]\<rparr>))"

text \<open>\<^verbatim>\<open>INSERT INTO users (email, password_hash) VALUES ($1, $2)\<close>\<close>

definition insert_user :: "Env \<Rightarrow> DB \<Rightarrow> string \<Rightarrow> string \<Rightarrow> string + DB" where
  "insert_user env d e h =
     (case db_fails env Insert_user of
        Some err \<Rightarrow> Inl err
      | None \<Rightarrow> Inr (d\<lparr>users := users d @
                 [\<lparr>u_id = default_id env, u_email = e, u_password_hash = h\<rparr>]\<rparr>))"

text \<open>\<^verbatim>\<open>UPDATE invitation_codes SET used=true WHERE code=$1\<close>\<close>

definition update_used :: "Env \<Rightarrow> DB \<Rightarrow> string \<Rightarrow> string + DB" where
  "update_used env d c =
     (case db_fails env Update_used of
        Some err \<Rightarrow> Inl err
      | None \<Rightarrow> Inr (d\<lparr>invitation_codes :=
                 map (\<lambda>row. if ic_code row = c then row\<lparr>ic_used := True\<rparr> else row)
                   (invitation_codes d)\<rparr>))"

text \<open>\<^verbatim>\<open>SELECT password_hash FROM users WHERE email = $1\<close>, scanned into one string: the
  first row, and an error (\<^verbatim>\<open>sql.ErrNoRows\<close>) when there is none.\<close>

definition select_password_hash :: "Env \<Rightarrow> DB \<Rightarrow> string \<Rightarrow> string + string" where
  "select_password_hash env d e =
     (case db_fails env Select_password_hash of
        Some err \<Rightarrow> Inl err
      | None \<Rightarrow> (case filter (\<lambda>row. u_email row = e) (users d) of
                  [] \<Rightarrow> Inl ''sql: no rows in result set''
                | row # _ \<Rightarrow> Inr (u_password_hash row)))"

text \<open>\<^verbatim>\<open>SELECT id FROM users WHERE email = $1\<close>; the source drops the error, which leaves
  \<^verbatim>\<open>user_id\<close> at zero.\<close>

definition select_user_id :: "Env \<Rightarrow> DB \<Rightarrow> string \<Rightarrow> int" where
  "select_user_id env d e =
     (case db_fails env Select_user_id of
        Some err \<Rightarrow> 0
      | None \<Rightarrow> (case filter (\<lambda>row. u_email row = e) (users d) of
                  [] \<Rightarrow> 0
                | row # _ \<Rightarrow> u_id row))"

text \<open>\<^verbatim>\<open>INSERT INTO sessions (user_id, token) VALUES ($1, $2)\<close>\<close>

definition insert_session :: "Env \<Rightarrow> DB \<Rightarrow> int \<Rightarrow> string \<Rightarrow> string + DB" where
  "insert_session env d uid tok =
     (case db_fails env Insert_session of
        Some err \<Rightarrow> Inl err
      | None \<Rightarrow> Inr (d\<lparr>sessions := sessions d @ [\<lparr>s_user_id = uid, s_token = tok\<rparr>]\<rparr>))"

text \<open>\<^verbatim>\<open>SELECT id, email FROM invitation_codes WHERE used = false AND
  expires_at < NOW() - INTERVAL '2 minutes'\<close> (\<^verbatim>\<open>GetExpiredInvitations\<close>).\<close>

definition GetExpiredInvitations :: "Env \<Rightarrow> DB \<Rightarrow> int \<Rightarrow> string + Invitation list" where
  "GetExpiredInvitations env d now =
     (case db_fails env Select_expired of
        Some err \<Rightarrow> Inl err
      | None \<Rightarrow> Inr (map (\<lambda>row. \<lparr>Invitation_ID = ic_id row, Invitation_Email = ic_email row\<rparr>)
                 (filter (\<lambda>row. ic_used row = False \<and>
                    (case ic_expires_at row of None \<Rightarrow> False | Some x \<Rightarrow> x < now - 2 * Minute))
                  (invitation_codes d))))"

section \<open>The JWT library\<close>

text \<open>
  The tokens are made and parsed by \<^verbatim>\<open>github.com/dgrijalva/jwt-go\<close>, which the source
  imports. Its behaviour is modelled symbolically: a well-formed compact token carries a
  signing algorithm, a JSON object of claims, and the key under which its signature
  segment verifies (a forged signature is a key the verifier does not hold). How a token
  is laid out as a string is left to the environment (\<open>jwt_compact\<close> for
  \<^verbatim>\<open>SignedString\<close>, \<open>jwt_segments\<close> for the decoding half of \<^verbatim>\<open>Parse\<close>, \<open>None\<close> on a
  malformed string).

  \<^verbatim>\<open>jwt.MapClaims\<close> is a Go map from claim names to dynamically typed values: the
  type of a value decides the type assertion \<^verbatim>\<open>.(float64)\<close> of the middleware. JSON
  numbers decode to \<^verbatim>\<open>float64\<close>, here their rational value.
\<close>

datatype go_value = GoString string | GoInt64 int | GoFloat64 rat | GoBool bool | GoNil

datatype json = JNumber rat | JString string | JBool bool | JNull

type_synonym MapClaims = "string \<rightharpoonup> go_value"

datatype alg = HS256 | HS384 | HS512 | OtherAlg

record jws =
  jws_alg :: alg
  jws_payload :: "string \<rightharpoonup> json"
  jws_key :: string

record JwtLib =
  jwt_compact :: "jws \<Rightarrow> string + string"
  jwt_segments :: "string \<Rightarrow> jws option"

definition json_Marshal :: "go_value \<Rightarrow> json" where
  "json_Marshal v = (case v of GoString s \<Rightarrow> JString s | GoInt64 i \<Rightarrow> JNumber (of_int i)
     | GoFloat64 q \<Rightarrow> JNumber q | GoBool b \<Rightarrow> JBool b | GoNil \<Rightarrow> JNull)"

definition json_Unmarshal :: "json \<Rightarrow> go_value" where
  "json_Unmarshal j = (case j of JString s \<Rightarrow> GoString s | JNumber q \<Rightarrow> GoFloat64 q
     | JBool b \<Rightarrow> GoBool b | JNull \<Rightarrow> GoNil)"

text \<open>\<^verbatim>\<open>token.SignedString(key)\<close> of a token made by \<^verbatim>\<open>jwt.NewWithClaims(method, claims)\<close>.\<close>

definition SignedString :: "JwtLib \<Rightarrow> alg \<Rightarrow> MapClaims \<Rightarrow> string \<Rightarrow> string + string" where
  "SignedString lib method claims key =
     jwt_compact lib \<lparr>jws_alg = method, jws_payload = map_option json_Marshal \<circ> claims,
                      jws_key = key\<rparr>"

text \<open>Go's conversion \<^verbatim>\<open>int64(f)\<close> truncates towards zero.\<close>

definition int64_of :: "rat \<Rightarrow> int" where
  "int64_of q = (if 0 \<le> q then \<lfloor>q\<rfloor> else \<lceil>q\<rceil>)"

text \<open>
  \<^verbatim>\<open>MapClaims.Valid()\<close> looks at the registered claims \<^verbatim>\<open>exp\<close>, \<^verbatim>\<open>iat\<close> and \<^verbatim>\<open>nbf\<close> only,
  each optional, read when it is a \<^verbatim>\<open>float64\<close>, and skipped when zero. \<open>now\<close> is in
  seconds here.
\<close>

definition VerifyExpiresAt :: "MapClaims \<Rightarrow> int \<Rightarrow> bool" where
  "VerifyExpiresAt m now = (case m ''exp'' of
       Some (GoFloat64 q) \<Rightarrow> (if int64_of q = 0 then True else now \<le> int64_of q)
     | _ \<Rightarrow> True)"

definition VerifyIssuedAt :: "MapClaims \<Rightarrow> int \<Rightarrow> bool" where
  "VerifyIssuedAt m now = (case m ''iat'' of
       Some (GoFloat64 q) \<Rightarrow> (if int64_of q = 0 then True else now \<ge> int64_of q)
     | _ \<Rightarrow> True)"

definition VerifyNotBefore :: "MapClaims \<Rightarrow> int \<Rightarrow> bool" where
  "VerifyNotBefore m now = (case m ''nbf'' of
       Some (GoFloat64 q) \<Rightarrow> (if int64_of q = 0 then True else now \<ge> int64_of q)
     | _ \<Rightarrow> True)"

definition MapClaims_Valid :: "MapClaims \<Rightarrow> int \<Rightarrow> bool" where
  "MapClaims_Valid m now = (VerifyExpiresAt m now \<and> VerifyIssuedAt m now \<and> VerifyNotBefore m now)"

text \<open>The signature check: an HMAC method with the key the signature was made with. Any
  other method refuses a byte-slice key.\<close>

definition Verify :: "alg \<Rightarrow> string \<Rightarrow> string \<Rightarrow> bool" where
  "Verify method signed_with key = (method \<noteq> OtherAlg \<and> signed_with = key)"

text \<open>
  \<^verbatim>\<open>jwt.ParseWithClaims(tokenString, claims, keyFunc)\<close> with a \<^verbatim>\<open>MapClaims\<close> argument:
  the payload is decoded \<^emph>\<open>into\<close> the map passed in, so entries of the caller that the
  payload does not name stay as they were. The result is the map after decoding, and
  whether \<^verbatim>\<open>err == nil && token.Valid\<close>.
\<close>

definition ParseWithClaims ::
  "JwtLib \<Rightarrow> string \<Rightarrow> MapClaims \<Rightarrow> string \<Rightarrow> int \<Rightarrow> MapClaims \<times> bool" where
  "ParseWithClaims lib tokenString claims key now =
     (case jwt_segments lib tokenString of
        None \<Rightarrow> (claims, False)
      | Some t \<Rightarrow>
          (let claims' = (\<lambda>k. case jws_payload t k of
                                Some j \<Rightarrow> Some (json_Unmarshal j) | None \<Rightarrow> claims k)
           in (claims', MapClaims_Valid claims' (Unix now) \<and> Verify (jws_alg t) (jws_key t) key)))"

section \<open>The rate-limiting library\<close>

text \<open>
  Modelled from the spec: the token bucket of \<^verbatim>\<open>github.com/juju/ratelimit\<close>, which the
  source imports and which is not part of the repository (\<^verbatim>\<open>NewBucketWithRate\<close>,
  \<^verbatim>\<open>TakeAvailable\<close>). The spec: a token bucket with capacity C and refill rate R tokens
  per unit of time, created at full capacity, its size bounded by the capacity and never
  negative; a request takes one token and is throttled when none is there. The bucket
  counts whole refill intervals (ticks) since its creation and adds the tokens of the
  ticks that passed since it last looked.
\<close>

record Bucket =
  startTime :: int
  capacity :: int
  quantum :: int
  fillInterval :: int
  availableTokens :: int
  latestTick :: int

definition NewBucketWithRate :: "int \<Rightarrow> int \<Rightarrow> int \<Rightarrow> Bucket" where
  "NewBucketWithRate rate cap now =
     \<lparr>startTime = now, capacity = cap, quantum = 1, fillInterval = Second sdiv rate,
      availableTokens = cap, latestTick = 0\<rparr>"

definition currentTick :: "Bucket \<Rightarrow> int \<Rightarrow> int" where
  "currentTick tb now = (now - startTime tb) sdiv fillInterval tb"

definition adjustavailableTokens :: "Bucket \<Rightarrow> int \<Rightarrow> Bucket" where
  "adjustavailableTokens tb tick =
     (let lastTick = latestTick tb; tb = tb\<lparr>latestTick := tick\<rparr>
      in if availableTokens tb \<ge> capacity tb then tb
         else (let tb = tb\<lparr>availableTokens := availableTokens tb + (tick - lastTick) * quantum tb\<rparr>
               in if availableTokens tb > capacity tb
                  then tb\<lparr>availableTokens := capacity tb\<rparr> else tb))"

definition TakeAvailable :: "Bucket \<Rightarrow> int \<Rightarrow> int \<Rightarrow> Bucket \<times> int" where
  "TakeAvailable tb now count =
     (if count \<le> 0 then (tb, 0)
      else (let tb = adjustavailableTokens tb (currentTick tb now)
            in if availableTokens tb \<le> 0 then (tb, 0)
               else (let count = (if count > availableTokens tb then availableTokens tb else count)
                     in (tb\<lparr>availableTokens := availableTokens tb - count\<rparr>, count))))"

section \<open>The handlers\<close>

text \<open>
  The shared state of the process: the database behind \<^verbatim>\<open>db\<close> and the global
  \<^verbatim>\<open>ipLimiterMap\<close>. Every handler body runs under one clock reading \<open>now\<close>.
  Lines printed to standard output are left out of the handlers' model.
\<close>

record state =
  db :: DB
  ipLimiterMap :: "string \<rightharpoonup> Bucket"

type_synonym handler =
  "Env \<Rightarrow> state \<Rightarrow> int \<Rightarrow> Request \<Rightarrow> ResponseWriter \<Rightarrow> state \<times> ResponseWriter"

definition jwtKey :: string where
  "jwtKey = []"

definition GenerateJWTToken :: "JwtLib \<Rightarrow> string \<Rightarrow> int \<Rightarrow> string + string" where
  "GenerateJWTToken lib username now =
     (let claims = [''email'' \<mapsto> GoString username,
                    ''expiry'' \<mapsto> GoInt64 (Unix (now + 2 * Hour))]
      in case SignedString lib HS256 claims jwtKey of
           Inl err \<Rightarrow> Inl err
         | Inr tokenString \<Rightarrow> Inr tokenString)"

definition GenerateTokenHandler :: "JwtLib \<Rightarrow> handler" where
  "GenerateTokenHandler lib env st now r w =
     (let val = PostFormValue r ''Email''
      in if val = [] then (st, http_Error ''Email header not found'' StatusUnauthorized w)
         else (case GenerateJWTToken lib val now of
                 Inl err \<Rightarrow> (st, http_Error ''Failed to generate token'' StatusInternalServerError w)
               | Inr tokenString \<Rightarrow>
                   (st, Write (JsonToken \<lparr>Token_Token = tokenString,
                                          Token_ExpireAt = now + 2 * Hour\<rparr>) w)))"

text \<open>\<^verbatim>\<open>strings.Split(s, " ")\<close>: the pieces between single spaces; one piece when there
  is no space, also for the empty string.\<close>

fun Split_space :: "string \<Rightarrow> string list" where
  "Split_space [] = [[]]"
| "Split_space (c # cs) =
     (if c = CHR '' '' then [] # Split_space cs
      else (case Split_space cs of [] \<Rightarrow> [[c]] | p # ps \<Rightarrow> (c # p) # ps))"

text \<open>\<^verbatim>\<open>strings.ToLower\<close> on the ASCII letters, which is all that a comparison with
  \<^verbatim>\<open>"bearer"\<close> can see.\<close>

definition lower_char :: "char \<Rightarrow> char" where
  "lower_char c = (let n = (of_char c :: nat) in if 65 \<le> n \<and> n \<le> 90 then char_of (n + 32) else c)"

definition ToLower :: "string \<Rightarrow> string" where
  "ToLower s = map lower_char s"

definition ExtractTokenFromHeader :: "Request \<Rightarrow> string" where
  "ExtractTokenFromHeader r =
     (let authHeader = Header_Get r ''Authorization''
      in if authHeader = [] then []
         else (let tokenParts = Split_space authHeader
               in if length tokenParts \<noteq> 2 \<or> ToLower (tokenParts ! 0) \<noteq> ''bearer'' then []
                  else tokenParts ! 1))"

definition AuthMiddleware :: "JwtLib \<Rightarrow> handler \<Rightarrow> handler" where
  "AuthMiddleware lib next env st now r w =
     (let email = FormValue r ''email'';
          claims = [''email'' \<mapsto> GoString email,
                    ''expiry'' \<mapsto> GoInt64 (Unix (now + 2 * Hour))];
          tokenString = ExtractTokenFromHeader r
      in if tokenString = []
         then (st, http_Error ''Authorization header not found'' StatusUnauthorized w)
         else (case ParseWithClaims lib tokenString claims jwtKey now of
                 (claims, ok) \<Rightarrow>
                   if \<not> ok then (st, http_Error ''Invalid token'' StatusUnauthorized w)
                   else (case claims ''expiry'' of
                           Some (GoFloat64 expClaim) \<Rightarrow>
                             if expClaim = 0
                             then (st, http_Error ''Expired token'' StatusUnauthorized w)
                             else next env st now r w
                         | _ \<Rightarrow> (st, http_Error ''Expired token'' StatusUnauthorized w))))"

definition GenerateInvitationCodeHandler :: handler where
  "GenerateInvitationCodeHandler env st now r w =
     (let email = FormValue r ''email''
      in case rand_code env of
           Inl err \<Rightarrow> (st, http_Error err StatusInternalServerError w)
         | Inr code \<Rightarrow>
             (case insert_invitation_code env (db st) code email of
                Inl err \<Rightarrow> (st, http_Error err StatusInternalServerError w)
              | Inr d \<Rightarrow>
                  (st\<lparr>db := d\<rparr>,
                   WriteHeader StatusCreated
                     (Write (JsonInvitationCode \<lparr>InvitationCode_Code = code,
                                                 InvitationCode_Used = False\<rparr>) w))))"

text \<open>
  The three checks of the invitation code in \<^verbatim>\<open>RegisterHandler\<close>, in the order of the
  source: \<open>Some\<close> the response written when a check ends the request, \<open>None\<close> when all
  three pass.
\<close>

definition register_checks ::
  "Env \<Rightarrow> DB \<Rightarrow> int \<Rightarrow> User \<Rightarrow> ResponseWriter \<Rightarrow> ResponseWriter option" where
  "register_checks env d now user w =
     (case select_codeExists env d (User_Code user) (User_Email user) of
        Inl err \<Rightarrow> Some (http_Error err StatusInternalServerError w)
      | Inr codeExists \<Rightarrow>
          if \<not> codeExists then Some (http_Error ''Invalid invitation code'' StatusBadRequest w)
          else (case select_isCodeUsed env d (User_Code user) (User_Email user) of
                  Inl err_IsCodeUsed \<Rightarrow> Some (http_Error err_IsCodeUsed StatusInternalServerError w)
                | Inr isCodeUsed \<Rightarrow>
                    if isCodeUsed then Some (http_Error ''Used invitation code'' StatusBadRequest w)
                    else (case select_isValidCode env d now (User_Code user) (User_Email user) of
                            Inl err_isValidCode \<Rightarrow>
                              Some (http_Error err_isValidCode StatusInternalServerError w)
                          | Inr isValidCode \<Rightarrow>
                              if \<not> isValidCode
                              then Some (http_Error ''Expired invitation code'' StatusBadRequest w)
                              else None)))"

definition RegisterHandler :: handler where
  "RegisterHandler env st now r w =
     (if Method r \<noteq> ''POST''
      then (st, http_Error ''Only POST method is allowed!'' StatusMethodNotAllowed w)
      else (let user = Body r
            in case register_checks env (db st) now user w of
                 Some w' \<Rightarrow> (st, w')
               | None \<Rightarrow>
                   (case bcrypt_GenerateFromPassword env (User_Password user) of
                      Inl err \<Rightarrow> (st, http_Error err StatusInternalServerError w)
                    | Inr hashedPassword \<Rightarrow>
                        (case insert_user env (db st) (User_Email user) hashedPassword of
                           Inl err \<Rightarrow> (st, http_Error err StatusInternalServerError w)
                         | Inr d1 \<Rightarrow>
                             (case update_used env d1 (User_Code user) of
                                Inl err \<Rightarrow> (st\<lparr>db := d1\<rparr>, http_Error err StatusInternalServerError w)
                              | Inr d2 \<Rightarrow>
                                  (st\<lparr>db := d2\<rparr>,
                                   Write (JsonUser user) (WriteHeader StatusCreated w)))))))"

definition LoginHandler :: handler where
  "LoginHandler env st now r w =
     (let tokenString = ExtractTokenFromHeader r
      in if tokenString = []
         then (st, http_Error ''Authorization header not found'' StatusUnauthorized w)
         else if Method r \<noteq> ''POST''
         then (st, http_Error ''Only POST method is allowed!'' StatusMethodNotAllowed w)
         else (let user = Body r
               in case select_password_hash env (db st) (User_Email user) of
                    Inl err \<Rightarrow> (st, http_Error ''User not found'' StatusUnauthorized w)
                  | Inr passwordHsh \<Rightarrow>
                      if \<not> bcrypt_CompareHashAndPassword env passwordHsh (User_Password user)
                      then (st, http_Error ''Invalid credential!'' StatusMethodNotAllowed w)
                      else (let user_id = select_user_id env (db st) (User_Email user)
                            in case insert_session env (db st) user_id tokenString of
                                 Inl err \<Rightarrow> (st, http_Error err StatusInternalServerError w)
                               | Inr d \<Rightarrow>
                                   (st\<lparr>db := d\<rparr>,
                                    Write (Text (''Logged in successfully!'' @ [CHR 0x0A]))
                                      (WriteHeader StatusOK w)))))"

text \<open>
  The Go map holds pointers to buckets, and \<^verbatim>\<open>TakeAvailable\<close> changes the bucket it is
  called on; the model stores the bucket after the call back under the address. The
  bucket is created and asked for its token under the same clock reading.
\<close>

definition RateLimitMiddleware :: "handler \<Rightarrow> handler" where
  "RateLimitMiddleware next env st now r w =
     (let ip = RemoteAddr r;
          limiter = (case ipLimiterMap st ip of
                       Some l \<Rightarrow> l
                     | None \<Rightarrow> NewBucketWithRate 1 1 now)
      in case TakeAvailable limiter now 1 of
           (limiter, taken) \<Rightarrow>
             (let st = st\<lparr>ipLimiterMap := (ipLimiterMap st)(ip \<mapsto> limiter)\<rparr>
              in if taken = 0
                 then (st, http_Error ''Rate limit exceeded'' StatusTooManyRequests w)
                 else next env st now r w))"

section \<open>The server\<close>

text \<open>
  The routes registered in \<^verbatim>\<open>main\<close>. A pattern without a trailing slash matches its own
  path only; any other path is answered by \<^verbatim>\<open>http.NotFound\<close>.
\<close>

definition NotFound :: handler where
  "NotFound env st now r w = (st, http_Error ''404 page not found'' 404 w)"

definition ServeMux :: "JwtLib \<Rightarrow> handler" where
  "ServeMux lib env st now r w =
     (if URL_Path r = ''/token'' then GenerateTokenHandler lib env st now r w
      else if URL_Path r = ''/invite''
      then AuthMiddleware lib GenerateInvitationCodeHandler env st now r w
      else if URL_Path r = ''/register'' then AuthMiddleware lib RegisterHandler env st now r w
      else if URL_Path r = ''/login''
      then RateLimitMiddleware (AuthMiddleware lib LoginHandler) env st now r w
      else NotFound env st now r w)"

text \<open>Serving a sequence of requests, each with the environment and the clock it meets
  and a response writer of its own.\<close>

fun serve :: "JwtLib \<Rightarrow> state \<Rightarrow> (Env \<times> int \<times> Request) list \<Rightarrow> state" where
  "serve lib st [] = st"
| "serve lib st ((env, now, r) # rest) =
     serve lib (fst (ServeMux lib env st now r new_response)) rest"

section \<open>The background sweep\<close>

text \<open>
  What the sweep does is a trace of events: the query, the lines it prints and the sleep.
\<close>

datatype event =
  Query_expired
  | Println_query_error string
  | Printf_resending string
  | Println_resend_error string
  | Sleep int

definition ResendInvitation :: "Invitation \<Rightarrow> event list \<times> string option" where
  "ResendInvitation invitation = ([Printf_resending (Invitation_Email invitation)], None)"

text \<open>The inner loop over the invitations found.\<close>

fun resend_each :: "Invitation list \<Rightarrow> event list" where
  "resend_each [] = []"
| "resend_each (invitation # rest) =
     (case ResendInvitation invitation of
        (out, err) \<Rightarrow>
          out @ (case err of Some e \<Rightarrow> [Println_resend_error e] | None \<Rightarrow> []) @ resend_each rest)"

text \<open>
  \<^verbatim>\<open>ProcessResendCodes\<close> is a loop without exit. The model runs one iteration for each
  element of its argument, which gives the environment, the database and the clock that
  the iteration meets, and returns the trace of these iterations.
\<close>

fun ProcessResendCodes :: "(Env \<times> DB \<times> int) list \<Rightarrow> event list" where
  "ProcessResendCodes [] = []"
| "ProcessResendCodes ((env, d, now) # rest) =
     Query_expired #
     (case GetExpiredInvitations env d now of
        Inl err \<Rightarrow> Println_query_error err # ProcessResendCodes rest
      | Inr expiredInvitations \<Rightarrow>
          resend_each expiredInvitations @ [Sleep (2 * Hour)] @ ProcessResendCodes rest)"

section \<open>The entry point\<close>

text \<open>
  \<^verbatim>\<open>main\<close> is a straight sequence of calls. A call returns, or never returns while the
  process lives (\<^verbatim>\<open>http.ListenAndServe\<close> while it serves, the sweep loop), or ends the
  process (\<^verbatim>\<open>log.Fatal\<close> prints and calls \<^verbatim>\<open>os.Exit(1)\<close>). The calls that \<^verbatim>\<open>main\<close> reaches
  are those up to the first one that does not return.
\<close>

datatype call =
  Call_SetupDatabase
  | Call_HandleFunc string
  | Call_Println
  | Call_ListenAndServe
  | Call_ProcessResendCodes

datatype control = Returns | Blocks | Exits

record World =
  sql_Open_fails :: bool
  db_Ping_fails :: bool
  ListenAndServe_returns :: bool

fun reached :: "(call \<times> control) list \<Rightarrow> call list" where
  "reached [] = []"
| "reached ((c, k) # rest) = c # (if k = Returns then reached rest else [])"

definition SetupDatabase :: "World \<Rightarrow> control" where
  "SetupDatabase wd =
     (if sql_Open_fails wd then Exits else if db_Ping_fails wd then Exits else Returns)"

text \<open>\<^verbatim>\<open>log.Fatal(http.ListenAndServe(":8012", nil))\<close>: the server blocks while it serves;
  when it returns, it returns an error and \<^verbatim>\<open>log.Fatal\<close> ends the process.\<close>

definition log_Fatal_ListenAndServe :: "World \<Rightarrow> control" where
  "log_Fatal_ListenAndServe wd = (if ListenAndServe_returns wd then Exits else Blocks)"

definition main :: "World \<Rightarrow> call list" where
  "main wd = reached
     [(Call_SetupDatabase, SetupDatabase wd),
      (Call_HandleFunc ''/token'', Returns),
      (Call_HandleFunc ''/invite'', Returns),
      (Call_HandleFunc ''/register'', Returns),
      (Call_HandleFunc ''/login'', Returns),
      (Call_Println, Returns),
      (Call_ListenAndServe, log_Fatal_ListenAndServe wd),
      (Call_ProcessResendCodes, Blocks)]"

section \<open>Permanence of the used flag\<close>

text \<open>
  The relation between the invitation table before and after some operations that says
  that no row was removed and that a row was changed, if at all, by setting its
  \<open>used\<close> flag.
\<close>

definition used_kept :: "invitation_row list \<Rightarrow> invitation_row list \<Rightarrow> bool" where
  "used_kept tbl tbl' \<longleftrightarrow>
     length tbl \<le> length tbl' \<and>
     (\<forall>i < length tbl. tbl' ! i = tbl ! i \<or> tbl' ! i = (tbl ! i)\<lparr>ic_used := True\<rparr>)"

section \<open>Sample inputs\<close>

text \<open>
  Concrete inputs for the worked instances below: an environment in which every call
  succeeds and one in which the store is down, a store holding the single unused
  invitation \<^verbatim>\<open>abc123\<close> for \<^verbatim>\<open>a@x.com\<close> that expires two minutes after the epoch, a
  registration request for it, and a token layout that knows one token, the one issued
  to \<^verbatim>\<open>a@x.com\<close> at the epoch.
\<close>

definition sample_env :: Env where
  "sample_env =
     \<lparr>db_fails = (\<lambda>c. None), default_id = 7, default_expires_at = None,
      rand_code = Inr ''q83vEjRWeJCrze8SNFZ4kA=='',
      bcrypt_GenerateFromPassword = (\<lambda>p. Inr (''$2a$10$'' @ p)),
      bcrypt_CompareHashAndPassword = (\<lambda>h p. h = ''$2a$10$'' @ p)\<rparr>"

definition store_down :: Env where
  "store_down = sample_env\<lparr>db_fails := (\<lambda>c. Some ''connection refused'')\<rparr>"

definition sample_db :: DB where
  "sample_db =
     \<lparr>invitation_codes =
        [\<lparr>ic_id = 1, ic_code = ''abc123'', ic_email = ''a@x.com'', ic_used = False,
          ic_expires_at = Some (2 * Minute)\<rparr>],
      users = [\<lparr>u_id = 1, u_email = ''u@x.com'', u_password_hash = ''$2a$10$secret''\<rparr>],
      sessions = []\<rparr>"

definition sample_state :: state where
  "sample_state = \<lparr>db = sample_db, ipLimiterMap = Map.empty\<rparr>"

definition sample_request :: Request where
  "sample_request =
     \<lparr>Method = ''POST'', URL_Path = ''/register'', RemoteAddr = ''1.2.3.4:40000'',
      Header = Map.empty, Form = Map.empty, PostForm = Map.empty,
      Body = \<lparr>User_Email = ''a@x.com'', User_Password = ''pw'', User_Code = ''abc123''\<rparr>\<rparr>"

definition sample_lib :: JwtLib where
  "sample_lib =
     \<lparr>jwt_compact = (\<lambda>j. Inr ''h.p.s''),
      jwt_segments = (\<lambda>s. if s = ''h.p.s''
         then Some \<lparr>jws_alg = HS256,
                    jws_payload = map_option json_Marshal \<circ>
                      [''email'' \<mapsto> GoString ''a@x.com'',
                       ''expiry'' \<mapsto> GoInt64 (Unix (0 + 2 * Hour))],
                    jws_key = jwtKey\<rparr>
         else None)\<rparr>"

section \<open>Auxiliary facts\<close>

lemma http_Error_new:
  "http_Error msg c new_response = \<lparr>status = Some c, body = [Text (msg @ [CHR 0x0A])]\<rparr>"
  by (simp add: http_Error_def Write_def WriteHeader_def new_response_def)

lemma Write_new: "Write x new_response = \<lparr>status = Some StatusOK, body = [x]\<rparr>"
  by (simp add: Write_def WriteHeader_def new_response_def)

lemma Split_space_no_space: "CHR '' '' \<notin> set s \<Longrightarrow> Split_space s = [s]"
  by (induction s) auto

lemma ToLower_Bearer: "ToLower ''Bearer'' = ''bearer''"
  by code_simp

lemma Extract_Bearer:
  assumes "Header_Get r ''Authorization'' = ''Bearer '' @ tok" "CHR '' '' \<notin> set tok"
  shows "ExtractTokenFromHeader r = tok"
  using assms by (simp add: ExtractTokenFromHeader_def Split_space_no_space ToLower_Bearer)

lemma Extract_no_header:
  "Header r ''Authorization'' = None \<Longrightarrow> ExtractTokenFromHeader r = []"
  by (simp add: ExtractTokenFromHeader_def Header_Get_def first_value_def)

lemma Unix_pos: "0 \<le> t \<Longrightarrow> 0 < Unix (t + 2 * Hour)"
  unfolding Unix_def Hour_def Minute_def Second_def
  by (simp add: pos_imp_zdiv_pos_iff)

lemmas sample_defs =
  sample_env_def store_down_def sample_db_def sample_state_def sample_request_def sample_lib_def

lemmas time_defs = Hour_def Minute_def Second_def

lemmas http_defs = http_Error_def Write_def WriteHeader_def new_response_def Let_def

lemmas query_defs = register_checks_def select_codeExists_def select_isCodeUsed_def
  select_isValidCode_def insert_user_def update_used_def

subsection \<open>The checks of the invitation code\<close>

lemma register_checks_eq:
  assumes "db_fails env Select_codeExists = None" "db_fails env Select_isCodeUsed = None"
    "db_fails env Select_isValidCode = None"
  shows "register_checks env d now user w =
    (if \<not> (\<exists>row\<in>set (invitation_codes d). ic_code row = User_Code user \<and> ic_email row = User_Email user)
     then Some (http_Error ''Invalid invitation code'' StatusBadRequest w)
     else if (\<exists>row\<in>set (invitation_codes d). ic_code row = User_Code user \<and> ic_used row \<and> ic_email row = User_Email user)
     then Some (http_Error ''Used invitation code'' StatusBadRequest w)
     else if \<not> (\<exists>row\<in>set (invitation_codes d). ic_code row = User_Code user \<and> \<not> ic_used row
                  \<and> ic_email row = User_Email user
                  \<and> (\<exists>x. ic_expires_at row = Some x \<and> now - 2 * Minute < x))
     then Some (http_Error ''Expired invitation code'' StatusBadRequest w)
     else None)"
proof -
  let ?c = "User_Code user" and ?e = "User_Email user"
  have q1: "select_codeExists env d ?c ?e =
      Inr (\<exists>row\<in>set (invitation_codes d). ic_code row = ?c \<and> ic_email row = ?e)"
    using assms(1) by (simp add: select_codeExists_def list_ex_iff)
  have q2: "select_isCodeUsed env d ?c ?e =
      Inr (\<exists>row\<in>set (invitation_codes d). ic_code row = ?c \<and> ic_used row \<and> ic_email row = ?e)"
    using assms(2) by (simp add: select_isCodeUsed_def list_ex_iff)
  have v: "(case e of None \<Rightarrow> False | Some x \<Rightarrow> now - 2 * Minute < x) =
      (\<exists>x. e = Some x \<and> now - 2 * Minute < x)" for e :: "int option"
    by (cases e) simp_all
  have q3: "select_isValidCode env d now ?c ?e =
      Inr (\<exists>row\<in>set (invitation_codes d). ic_code row = ?c \<and> \<not> ic_used row \<and> ic_email row = ?e
             \<and> (\<exists>x. ic_expires_at row = Some x \<and> now - 2 * Minute < x))"
    using assms(3) by (simp add: select_isValidCode_def list_ex_iff v)
  show ?thesis
    unfolding register_checks_def q1 q2 q3 by (simp only: sum.case)
qed

lemma register_checks_None_row:
  assumes "register_checks env d now user w = None"
  shows "\<exists>row\<in>set (invitation_codes d). ic_code row = User_Code user \<and> ic_email row = User_Email user"
  using assms
  by (auto simp: register_checks_def select_codeExists_def list_ex_iff
      split: sum.splits option.splits if_splits)

lemma register_checks_Some_status:
  assumes "register_checks env d now user new_response = Some w'"
  shows "\<exists>c. status w' = Some c \<and> 400 \<le> c"
  using assms
  by (auto simp: register_checks_def http_Error_new StatusBadRequest_def
      StatusInternalServerError_def split: sum.splits if_splits)

lemma update_used_marks:
  assumes "update_used env d c = Inr d'"
  shows "invitation_codes d' = map (\<lambda>row. if ic_code row = c then row\<lparr>ic_used := True\<rparr> else row) (invitation_codes d)"
    "users d' = users d" "sessions d' = sessions d"
  using assms by (auto simp: update_used_def split: option.splits)

lemma insert_user_keeps:
  assumes "insert_user env d e h = Inr d'"
  shows "invitation_codes d' = invitation_codes d"
  using assms by (auto simp: insert_user_def split: option.splits)

text \<open>The outcomes of \<open>RegisterHandler\<close>, by the exit of the source that is taken.\<close>

lemma RegisterHandler_cases:
  assumes "RegisterHandler env st now r new_response = (st', w')"
  obtains
    (rejected) "st' = st" "\<exists>c. status w' = Some c \<and> 400 \<le> c"
  | (update_failed) d1 h err where "register_checks env (db st) now (Body r) new_response = None"
      "insert_user env (db st) (User_Email (Body r)) h = Inr d1"
      "update_used env d1 (User_Code (Body r)) = Inl err"
      "st' = st\<lparr>db := d1\<rparr>" "status w' = Some StatusInternalServerError"
  | (registered) d1 d2 h where "Method r = ''POST''"
      "register_checks env (db st) now (Body r) new_response = None"
      "insert_user env (db st) (User_Email (Body r)) h = Inr d1"
      "update_used env d1 (User_Code (Body r)) = Inr d2"
      "st' = st\<lparr>db := d2\<rparr>" "w' = \<lparr>status = Some StatusCreated, body = [JsonUser (Body r)]\<rparr>"
proof (cases "Method r = ''POST''")
  case False
  with assms have "st' = st" "status w' = Some StatusMethodNotAllowed"
    by (auto simp: RegisterHandler_def http_Error_new)
  then show ?thesis using rejected by (simp add: StatusMethodNotAllowed_def)
next
  case post: True
  show ?thesis
  proof (cases "register_checks env (db st) now (Body r) new_response")
    case (Some w1)
    with assms post have "st' = st" "w' = w1" by (auto simp: RegisterHandler_def)
    with register_checks_Some_status [OF Some] show ?thesis using rejected by blast
  next
    case None
    show ?thesis
    proof (cases "bcrypt_GenerateFromPassword env (User_Password (Body r))")
      case (Inl err)
      with assms post None have "st' = st" "status w' = Some StatusInternalServerError"
        by (auto simp: RegisterHandler_def http_Error_new)
      then show ?thesis using rejected by (simp add: StatusInternalServerError_def)
    next
      case (Inr h)
      show ?thesis
      proof (cases "insert_user env (db st) (User_Email (Body r)) h")
        case (Inl err)
        with assms post None Inr have "st' = st" "status w' = Some StatusInternalServerError"
          by (auto simp: RegisterHandler_def http_Error_new)
        then show ?thesis using rejected by (simp add: StatusInternalServerError_def)
      next
        case ins: (Inr d1)
        show ?thesis
        proof (cases "update_used env d1 (User_Code (Body r))")
          case (Inl err)
          with assms post None Inr ins
          have "st' = st\<lparr>db := d1\<rparr>" "status w' = Some StatusInternalServerError"
            by (auto simp: RegisterHandler_def http_Error_new)
          then show ?thesis using update_failed None ins Inl by blast
        next
          case upd: (Inr d2)
          with assms post None Inr ins
          have "st' = st\<lparr>db := d2\<rparr>" "w' = \<lparr>status = Some StatusCreated, body = [JsonUser (Body r)]\<rparr>"
            by (auto simp: RegisterHandler_def Write_def WriteHeader_def new_response_def)
          then show ?thesis using registered post None ins upd by blast
        qed
      qed
    qed
  qed
qed

lemma register_created_rows:
  assumes "RegisterHandler env st now r new_response = (st', w')" "status w' = Some c" "c < 400"
  shows "\<exists>row\<in>set (invitation_codes (db st')).
           ic_code row = User_Code (Body r) \<and> ic_email row = User_Email (Body r) \<and> ic_used row"
    and "\<forall>row\<in>set (invitation_codes (db st')). ic_code row = User_Code (Body r) \<longrightarrow> ic_used row"
proof -
  let ?c = "User_Code (Body r)" and ?e = "User_Email (Body r)"
  from assms(1) have "(\<exists>row\<in>set (invitation_codes (db st')).
           ic_code row = ?c \<and> ic_email row = ?e \<and> ic_used row) \<and>
      (\<forall>row\<in>set (invitation_codes (db st')). ic_code row = ?c \<longrightarrow> ic_used row)"
  proof (cases rule: RegisterHandler_cases)
    case rejected
    with assms(2,3) show ?thesis by auto
  next
    case (update_failed d1 h err)
    with assms(2,3) show ?thesis by (simp add: StatusInternalServerError_def)
  next
    case (registered d1 d2 h)
    have tbl: "invitation_codes d2 =
        map (\<lambda>row. if ic_code row = ?c then row\<lparr>ic_used := True\<rparr> else row)
          (invitation_codes (db st))"
      using update_used_marks(1) [OF registered(4)] insert_user_keeps [OF registered(3)] by simp
    from register_checks_None_row [OF registered(2)]
    obtain row where row: "row \<in> set (invitation_codes (db st))"
      "ic_code row = ?c" "ic_email row = ?e" by blast
    have "row\<lparr>ic_used := True\<rparr> \<in> set (invitation_codes d2)"
      unfolding tbl using row by force
    then have "\<exists>row\<in>set (invitation_codes d2). ic_code row = ?c \<and> ic_email row = ?e \<and> ic_used row"
      using row by (intro bexI [of _ "row\<lparr>ic_used := True\<rparr>"]) simp_all
    moreover have "\<forall>row\<in>set (invitation_codes d2). ic_code row = ?c \<longrightarrow> ic_used row"
      unfolding tbl by auto
    ultimately show ?thesis using registered(5) by simp
  qed
  then show "\<exists>row\<in>set (invitation_codes (db st')).
           ic_code row = User_Code (Body r) \<and> ic_email row = User_Email (Body r) \<and> ic_used row"
    and "\<forall>row\<in>set (invitation_codes (db st')). ic_code row = User_Code (Body r) \<longrightarrow> ic_used row"
    by blast+
qed

lemma sample_registration:
  "RegisterHandler sample_env sample_state (1 * Minute) sample_request new_response =
     (sample_state\<lparr>db := sample_db
        \<lparr>invitation_codes :=
           [\<lparr>ic_id = 1, ic_code = ''abc123'', ic_email = ''a@x.com'', ic_used = True,
             ic_expires_at = Some (2 * Minute)\<rparr>],
         users := users sample_db @
           [\<lparr>u_id = 7, u_email = ''a@x.com'', u_password_hash = ''$2a$10$pw''\<rparr>]\<rparr>\<rparr>,
      \<lparr>status = Some 201, body = [JsonUser (Body sample_request)]\<rparr>)"
  by (simp add: RegisterHandler_def query_defs sample_defs time_defs http_defs StatusCreated_def)

subsection \<open>The used flag under all operations\<close>

lemma used_kept_refl: "used_kept tbl tbl"
  by (simp add: used_kept_def)

lemma used_kept_trans: "used_kept a b \<Longrightarrow> used_kept b c \<Longrightarrow> used_kept a c"
  unfolding used_kept_def
proof (intro conjI allI impI)
  assume h: "length a \<le> length b \<and> (\<forall>i<length a. b ! i = a ! i \<or> b ! i = (a ! i)\<lparr>ic_used := True\<rparr>)"
    "length b \<le> length c \<and> (\<forall>i<length b. c ! i = b ! i \<or> c ! i = (b ! i)\<lparr>ic_used := True\<rparr>)"
  show "length a \<le> length c" using h by simp
  fix i assume i: "i < length a"
  then have "b ! i = a ! i \<or> b ! i = (a ! i)\<lparr>ic_used := True\<rparr>" using h by blast
  moreover have "c ! i = b ! i \<or> c ! i = (b ! i)\<lparr>ic_used := True\<rparr>" using h i by simp
  ultimately show "c ! i = a ! i \<or> c ! i = (a ! i)\<lparr>ic_used := True\<rparr>" by auto
qed

lemma used_kept_append: "used_kept tbl (tbl @ xs)"
  by (simp add: used_kept_def nth_append)

lemma used_kept_map:
  "used_kept tbl (map (\<lambda>row. if P row then row\<lparr>ic_used := True\<rparr> else row) tbl)"
  by (simp add: used_kept_def)

lemma used_kept_row:
  assumes "used_kept tbl tbl'" "row \<in> set tbl" "ic_used row"
  shows "row \<in> set tbl'"
proof -
  from assms(2) obtain i where i: "i < length tbl" "tbl ! i = row"
    by (auto simp: in_set_conv_nth)
  have "row\<lparr>ic_used := True\<rparr> = row" using assms(3) by simp
  with assms(1) i have "tbl' ! i = row" "i < length tbl'"
    by (auto simp: used_kept_def)
  then show ?thesis by (auto simp: in_set_conv_nth)
qed

lemma insert_invitation_kept:
  assumes "insert_invitation_code env d c e = Inr d'"
  shows "used_kept (invitation_codes d) (invitation_codes d')"
  using assms by (auto simp: insert_invitation_code_def used_kept_append split: option.splits)

lemma insert_session_keeps:
  assumes "insert_session env d u t = Inr d'"
  shows "invitation_codes d' = invitation_codes d"
  using assms by (auto simp: insert_session_def split: option.splits)

lemma GenerateTokenHandler_state: "fst (GenerateTokenHandler lib env st now r w) = st"
  by (simp add: GenerateTokenHandler_def Let_def split: sum.splits)

lemma GenerateInvitationCodeHandler_kept:
  "used_kept (invitation_codes (db st))
     (invitation_codes (db (fst (GenerateInvitationCodeHandler env st now r w))))"
  by (auto simp: GenerateInvitationCodeHandler_def Let_def used_kept_refl
      insert_invitation_kept split: sum.splits)

lemma RegisterHandler_kept:
  "used_kept (invitation_codes (db st))
     (invitation_codes (db (fst (RegisterHandler env st now r w))))"
  by (auto simp: RegisterHandler_def Let_def used_kept_refl insert_user_keeps
      update_used_marks used_kept_map split: sum.splits option.splits)

lemma LoginHandler_kept:
  "used_kept (invitation_codes (db st))
     (invitation_codes (db (fst (LoginHandler env st now r w))))"
  by (auto simp: LoginHandler_def Let_def used_kept_refl insert_session_keeps
      split: sum.splits)

lemma AuthMiddleware_kept:
  assumes "\<And>env st now r w. used_kept (invitation_codes (db st))
     (invitation_codes (db (fst (next env st now r w))))"
  shows "used_kept (invitation_codes (db st))
     (invitation_codes (db (fst (AuthMiddleware lib next env st now r w))))"
  using assms
  by (auto simp: AuthMiddleware_def Let_def used_kept_refl
      split: prod.splits option.splits go_value.splits)

lemma RateLimitMiddleware_kept:
  assumes "\<And>env st now r w. used_kept (invitation_codes (db st))
     (invitation_codes (db (fst (next env st now r w))))"
  shows "used_kept (invitation_codes (db st))
     (invitation_codes (db (fst (RateLimitMiddleware next env st now r w))))"
proof -
  have "used_kept (invitation_codes (db (st\<lparr>ipLimiterMap := m\<rparr>)))
     (invitation_codes (db (fst (next env (st\<lparr>ipLimiterMap := m\<rparr>) now r w))))" for m
    by (rule assms)
  then show ?thesis
    by (auto simp: RateLimitMiddleware_def Let_def used_kept_refl split: prod.splits)
qed

lemma ServeMux_kept:
  "used_kept (invitation_codes (db st))
     (invitation_codes (db (fst (ServeMux lib env st now r w))))"
  by (simp add: ServeMux_def NotFound_def GenerateTokenHandler_state used_kept_refl
      AuthMiddleware_kept RateLimitMiddleware_kept GenerateInvitationCodeHandler_kept
      RegisterHandler_kept LoginHandler_kept)

lemma serve_kept:
  "used_kept (invitation_codes (db st)) (invitation_codes (db (serve lib st reqs)))"
proof (induction reqs arbitrary: st)
  case Nil
  show ?case by (simp add: used_kept_refl)
next
  case (Cons q reqs)
  obtain env now r where q: "q = (env, now, r)" by (cases q)
  show ?case
    unfolding q serve.simps
    by (rule used_kept_trans [OF ServeMux_kept Cons.IH])
qed

subsection \<open>Login and the rate limiter\<close>

lemma login_token:
  "ExtractTokenFromHeader (sample_request\<lparr>URL_Path := ''/login'',
       Header := [''Authorization'' \<mapsto> [''Bearer h.p.s'']], Body := u\<rparr>) = ''h.p.s''"
  by (rule Extract_Bearer) (simp_all add: Header_Get_def first_value_def)

lemma login_without_header:
  "AuthMiddleware sample_lib LoginHandler env st now (sample_request\<lparr>URL_Path := ''/login''\<rparr>)
     new_response =
   (st, \<lparr>status = Some 401, body = [Text (''Authorization header not found'' @ [CHR 0x0A])]\<rparr>)"
proof -
  have "ExtractTokenFromHeader (sample_request\<lparr>URL_Path := ''/login''\<rparr>) = []"
    by (rule Extract_no_header) (simp add: sample_request_def)
  then show ?thesis
    by (simp add: AuthMiddleware_def Let_def http_Error_new StatusUnauthorized_def)
qed

lemma LoginHandler_limiter: "ipLimiterMap (fst (LoginHandler env st now r w)) = ipLimiterMap st"
  by (auto simp: LoginHandler_def Let_def split: sum.splits)

lemma AuthMiddleware_limiter:
  assumes "\<And>env st now r w. ipLimiterMap (fst (next env st now r w)) = ipLimiterMap st"
  shows "ipLimiterMap (fst (AuthMiddleware lib next env st now r w)) = ipLimiterMap st"
  using assms
  by (auto simp: AuthMiddleware_def Let_def split: prod.splits option.splits go_value.splits)

lemma limiter_update_same: "ipLimiterMap s = m \<Longrightarrow> s\<lparr>ipLimiterMap := m\<rparr> = s"
  by auto

lemma sdiv_nonneg: "0 \<le> k \<Longrightarrow> 0 < l \<Longrightarrow> (k::int) sdiv l = k div l"
  by (cases "k = 0") (simp_all add: signed_divide_int_def)

lemma tick_later: assumes "t + Second \<le> t'" shows "1 \<le> (t' - t) sdiv Second"
proof -
  have "0 < Second" by (simp add: Second_def)
  moreover have "Second \<le> t' - t" using assms by simp
  ultimately have "1 \<le> (t' - t) div Second"
    by (simp add: pos_imp_zdiv_pos_iff int_one_le_iff_zero_less)
  moreover have "(t' - t) sdiv Second = (t' - t) div Second"
    using \<open>0 < Second\<close> \<open>Second \<le> t' - t\<close> by (intro sdiv_nonneg) simp_all
  ultimately show ?thesis by simp
qed

lemma take_new: "TakeAvailable (NewBucketWithRate 1 1 t) t 1 =
   (\<lparr>startTime = t, capacity = 1, quantum = 1, fillInterval = Second,
     availableTokens = 0, latestTick = 0\<rparr>, 1)"
  by (simp add: TakeAvailable_def NewBucketWithRate_def adjustavailableTokens_def currentTick_def)

lemma take_empty_same_tick:
  "TakeAvailable \<lparr>startTime = t, capacity = 1, quantum = 1, fillInterval = Second,
     availableTokens = 0, latestTick = (t' - t) sdiv Second\<rparr> t' 1 =
   (\<lparr>startTime = t, capacity = 1, quantum = 1, fillInterval = Second,
     availableTokens = 0, latestTick = (t' - t) sdiv Second\<rparr>, 0)"
  by (simp add: TakeAvailable_def adjustavailableTokens_def currentTick_def)

lemma take_refilled:
  assumes "t + Second \<le> t'"
  shows "TakeAvailable \<lparr>startTime = t, capacity = 1, quantum = 1, fillInterval = Second,
     availableTokens = 0, latestTick = 0\<rparr> t' 1 =
   (\<lparr>startTime = t, capacity = 1, quantum = 1, fillInterval = Second,
     availableTokens = 0, latestTick = (t' - t) sdiv Second\<rparr>, 1)"
  using tick_later [OF assms]
  by (auto simp add: TakeAvailable_def adjustavailableTokens_def currentTick_def Let_def)

section \<open>Token issuance and validation\<close>

text \<open>
  C1. The claim: validation rejects a token whose expiry claim is in the past, so a token
  made by \<open>GenerateJWTToken\<close> is refused once the clock passes its expiry. The code does
  not do so. The token carries its expiry under the claim name \<^verbatim>\<open>expiry\<close>; the library
  checks the registered claim \<^verbatim>\<open>exp\<close> only, and the middleware checks that \<^verbatim>\<open>expiry\<close>
  is a number other than zero, never comparing it with the clock. Once a token issued
  at \<open>t\<close> (not before the epoch) comes back from the wire as it was signed, the
  middleware hands the request to the wrapped handler at every later time \<open>t'\<close>, however
  far past \<open>t + 2 * Hour\<close>.
\<close>

theorem auth_admits_after_expiry:
  assumes issued: "GenerateJWTToken lib username t = Inr tok"
    and parsed: "jwt_segments lib tok =
         Some \<lparr>jws_alg = HS256,
               jws_payload = map_option json_Marshal \<circ>
                 [''email'' \<mapsto> GoString username, ''expiry'' \<mapsto> GoInt64 (Unix (t + 2 * Hour))],
               jws_key = jwtKey\<rparr>"
    and wire: "tok \<noteq> []" "CHR '' '' \<notin> set tok"
    and hdr: "Header_Get r ''Authorization'' = ''Bearer '' @ tok"
    and epoch: "0 \<le> t"
  shows "AuthMiddleware lib next env st t' r w = next env st t' r w"
proof -
  have ex: "ExtractTokenFromHeader r = tok"
    using hdr wire(2) by (rule Extract_Bearer)
  have nz: "(of_int (Unix (t + 2 * Hour)) :: rat) \<noteq> 0"
    using Unix_pos [OF epoch] by simp
  show ?thesis
    using wire(1) nz
    by (simp add: AuthMiddleware_def ex ParseWithClaims_def parsed MapClaims_Valid_def
        VerifyExpiresAt_def VerifyIssuedAt_def VerifyNotBefore_def Verify_def
        json_Marshal_def json_Unmarshal_def)
qed

theorem auth_admits_after_expiry_witness:
  "GenerateJWTToken sample_lib ''a@x.com'' 0 = Inr ''h.p.s'' \<and>
   0 + 2 * Hour < 3 * Hour \<and>
   AuthMiddleware sample_lib GenerateInvitationCodeHandler sample_env sample_state (3 * Hour)
     (sample_request\<lparr>Header := [''Authorization'' \<mapsto> [''Bearer h.p.s'']]\<rparr>) new_response =
   GenerateInvitationCodeHandler sample_env sample_state (3 * Hour)
     (sample_request\<lparr>Header := [''Authorization'' \<mapsto> [''Bearer h.p.s'']]\<rparr>) new_response"
proof -
  have g: "GenerateJWTToken sample_lib ''a@x.com'' 0 = Inr ''h.p.s''"
    by (simp add: GenerateJWTToken_def SignedString_def sample_lib_def)
  have p: "jwt_segments sample_lib ''h.p.s'' =
         Some \<lparr>jws_alg = HS256,
               jws_payload = map_option json_Marshal \<circ>
                 [''email'' \<mapsto> GoString ''a@x.com'', ''expiry'' \<mapsto> GoInt64 (Unix (0 + 2 * Hour))],
               jws_key = jwtKey\<rparr>"
    by (simp add: sample_lib_def)
  have h: "Header_Get (sample_request\<lparr>Header := [''Authorization'' \<mapsto> [''Bearer h.p.s'']]\<rparr>)
       ''Authorization'' = ''Bearer '' @ ''h.p.s''"
    by (simp add: Header_Get_def first_value_def)
  have "(0::int) + 2 * Hour < 3 * Hour"
    by (simp add: Hour_def Minute_def Second_def)
  then show ?thesis
    using g auth_admits_after_expiry [OF g p _ _ h, of GenerateInvitationCodeHandler sample_env
        sample_state "3 * Hour" new_response]
    by simp
qed

text \<open>
  C10. A token request whose \<^verbatim>\<open>Email\<close> form value is absent or empty is answered with
  401 and the text \<^verbatim>\<open>Email header not found\<close>, whatever the signing library would do
  (it is not consulted), and the state is untouched. A response that carries a token
  was made for a non-empty \<^verbatim>\<open>Email\<close> value, and the token is the one signed for it.
\<close>

theorem token_needs_subject:
  "(PostFormValue r ''Email'' = [] \<longrightarrow>
      GenerateTokenHandler lib env st now r new_response =
        (st, \<lparr>status = Some 401, body = [Text (''Email header not found'' @ [CHR 0x0A])]\<rparr>)) \<and>
   (\<forall>tk. JsonToken tk \<in> set (body (snd (GenerateTokenHandler lib env st now r new_response))) \<longrightarrow>
      PostFormValue r ''Email'' \<noteq> [] \<and>
      GenerateJWTToken lib (PostFormValue r ''Email'') now = Inr (Token_Token tk))"
  by (auto simp: GenerateTokenHandler_def http_Error_new StatusUnauthorized_def
      StatusInternalServerError_def Write_new Let_def split: sum.splits)

theorem token_needs_subject_witness:
  "PostFormValue sample_request ''Email'' = [] \<and>
   GenerateTokenHandler sample_lib sample_env sample_state 0 sample_request new_response =
     (sample_state, \<lparr>status = Some 401, body = [Text (''Email header not found'' @ [CHR 0x0A])]\<rparr>) \<and>
   GenerateTokenHandler sample_lib sample_env sample_state 0
       (sample_request\<lparr>PostForm := [''Email'' \<mapsto> [''a@x.com'']]\<rparr>) new_response =
     (sample_state, \<lparr>status = Some 200,
        body = [JsonToken \<lparr>Token_Token = ''h.p.s'', Token_ExpireAt = 2 * Hour\<rparr>]\<rparr>)"
proof -
  have e: "PostFormValue sample_request ''Email'' = []"
    by (simp add: PostFormValue_def first_value_def sample_request_def)
  have t: "GenerateTokenHandler sample_lib sample_env sample_state 0
       (sample_request\<lparr>PostForm := [''Email'' \<mapsto> [''a@x.com'']]\<rparr>) new_response =
     (sample_state, \<lparr>status = Some 200,
        body = [JsonToken \<lparr>Token_Token = ''h.p.s'', Token_ExpireAt = 2 * Hour\<rparr>]\<rparr>)"
    by (simp add: GenerateTokenHandler_def GenerateJWTToken_def SignedString_def sample_lib_def
        PostFormValue_def first_value_def Write_new StatusOK_def)
  show ?thesis
    using e t token_needs_subject [of sample_request sample_lib sample_env sample_state 0]
    by simp
qed

section \<open>Registration and the invitation code\<close>

text \<open>
  C2, as amended. The claim asks for acceptance exactly while the clock is before
  \<open>expires_at\<close>. The third query of the source compares \<open>expires_at\<close> with
  \<^verbatim>\<open>NOW() - INTERVAL '2 minutes'\<close>, as the query of the sweep does. So, when the three
  queries succeed, the code of a registration passes the checks if and only if some
  record with the claimed code and email is unused and the clock is less than two
  minutes past its \<open>expires_at\<close>, and no record with that code and email is marked used.
  When exactly one record carries the claimed code and email, this is: the record is
  unused and \<open>now < expires_at + 2 minutes\<close>.
\<close>

theorem register_accepts_within_grace:
  assumes "db_fails env Select_codeExists = None" "db_fails env Select_isCodeUsed = None"
    "db_fails env Select_isValidCode = None"
  shows "(register_checks env d now user w = None \<longleftrightarrow>
      (\<exists>row\<in>set (invitation_codes d). ic_code row = User_Code user \<and> ic_email row = User_Email user
          \<and> \<not> ic_used row \<and> (\<exists>x. ic_expires_at row = Some x \<and> now < x + 2 * Minute))
      \<and> \<not> (\<exists>row\<in>set (invitation_codes d). ic_code row = User_Code user \<and> ic_email row = User_Email user
          \<and> ic_used row))
    \<and> (\<forall>rec. filter (\<lambda>row. ic_code row = User_Code user \<and> ic_email row = User_Email user)
            (invitation_codes d) = [rec] \<longrightarrow>
          (register_checks env d now user w = None \<longleftrightarrow>
             \<not> ic_used rec \<and> (\<exists>x. ic_expires_at rec = Some x \<and> now < x + 2 * Minute)))"
proof -
  let ?m = "\<lambda>row. ic_code row = User_Code user \<and> ic_email row = User_Email user"
  have A: "register_checks env d now user w = None \<longleftrightarrow>
      (\<exists>row\<in>set (invitation_codes d). ?m row
          \<and> \<not> ic_used row \<and> (\<exists>x. ic_expires_at row = Some x \<and> now < x + 2 * Minute))
      \<and> \<not> (\<exists>row\<in>set (invitation_codes d). ?m row \<and> ic_used row)"
    unfolding register_checks_eq [OF assms] by (auto simp: algebra_simps)
  have B: "register_checks env d now user w = None \<longleftrightarrow>
             \<not> ic_used rec \<and> (\<exists>x. ic_expires_at rec = Some x \<and> now < x + 2 * Minute)"
    if "filter ?m (invitation_codes d) = [rec]" for rec
  proof -
    have "set (filter ?m (invitation_codes d)) = {rec}" using that by simp
    then have "\<And>row. row \<in> set (invitation_codes d) \<and> ?m row \<longleftrightarrow> row = rec"
      by auto
    then show ?thesis unfolding A by metis
  qed
  from A B show ?thesis by blast
qed


theorem register_accepts_within_grace_witness:
  "db_fails sample_env Select_codeExists = None \<and>
   db_fails sample_env Select_isCodeUsed = None \<and>
   db_fails sample_env Select_isValidCode = None \<and>
   register_checks sample_env sample_db (1 * Minute) (Body sample_request) new_response = None \<and>
   register_checks sample_env sample_db (4 * Minute) (Body sample_request) new_response \<noteq> None"
proof -
  have f: "db_fails sample_env Select_codeExists = None"
    "db_fails sample_env Select_isCodeUsed = None"
    "db_fails sample_env Select_isValidCode = None"
    by (simp_all add: sample_env_def)
  have a: "register_checks sample_env sample_db (1 * Minute) (Body sample_request) new_response = None"
    using register_accepts_within_grace [OF f, of sample_db "1 * Minute" "Body sample_request" new_response]
    by (simp add: sample_db_def sample_request_def time_defs)
  have b: "register_checks sample_env sample_db (4 * Minute) (Body sample_request) new_response \<noteq> None"
    using register_accepts_within_grace [OF f, of sample_db "4 * Minute" "Body sample_request" new_response]
    by (simp add: sample_db_def sample_request_def time_defs)
  from f a b show ?thesis by simp
qed

theorem register_accepts_after_expiry:
  "\<not> (register_checks sample_env sample_db (3 * Minute) (Body sample_request) new_response = None
        \<longleftrightarrow>
      (\<exists>row\<in>set (invitation_codes sample_db).
          ic_code row = User_Code (Body sample_request) \<and>
          ic_email row = User_Email (Body sample_request) \<and> \<not> ic_used row \<and>
          (\<exists>x. ic_expires_at row = Some x \<and> 3 * Minute < x)))
   \<and> status (snd (RegisterHandler sample_env sample_state (3 * Minute) sample_request new_response))
       = Some StatusCreated"
  by (simp add: RegisterHandler_def query_defs sample_defs time_defs http_defs)

text \<open>
  C3. For every run of \<open>RegisterHandler\<close>: a response with a success status is only
  written when, in the resulting store, the record of the claimed code and email exists
  and every record with the claimed code is marked used; when the insert of the user
  fails, the store is left as it was; and the invitation table changes only in a run
  that answers 201 and has inserted the user. (When the insert succeeds and the update
  then fails, the response is 500, the code stays unused, and the user row stays: the
  two writes are not undone together.)
\<close>

theorem register_marks_used_with_success:
  assumes run: "RegisterHandler env st now r new_response = (st', w')"
  shows "(\<forall>c. status w' = Some c \<and> c < 400 \<longrightarrow>
            (\<exists>row\<in>set (invitation_codes (db st')).
                ic_code row = User_Code (Body r) \<and> ic_email row = User_Email (Body r)) \<and>
            (\<forall>row\<in>set (invitation_codes (db st')).
                ic_code row = User_Code (Body r) \<longrightarrow> ic_used row)) \<and>
         (db_fails env Insert_user \<noteq> None \<longrightarrow> st' = st) \<and>
         (invitation_codes (db st') \<noteq> invitation_codes (db st) \<longrightarrow>
            status w' = Some StatusCreated \<and>
            (\<exists>h. users (db st') = users (db st) @
               [\<lparr>u_id = default_id env, u_email = User_Email (Body r), u_password_hash = h\<rparr>]))"
proof -
  have confirmed: "\<forall>c. status w' = Some c \<and> c < 400 \<longrightarrow>
            (\<exists>row\<in>set (invitation_codes (db st')).
                ic_code row = User_Code (Body r) \<and> ic_email row = User_Email (Body r)) \<and>
            (\<forall>row\<in>set (invitation_codes (db st')).
                ic_code row = User_Code (Body r) \<longrightarrow> ic_used row)"
    using register_created_rows [OF run] by blast
  from run have "(db_fails env Insert_user \<noteq> None \<longrightarrow> st' = st) \<and>
         (invitation_codes (db st') \<noteq> invitation_codes (db st) \<longrightarrow>
            status w' = Some StatusCreated \<and>
            (\<exists>h. users (db st') = users (db st) @
               [\<lparr>u_id = default_id env, u_email = User_Email (Body r), u_password_hash = h\<rparr>]))"
  proof (cases rule: RegisterHandler_cases)
    case rejected
    then show ?thesis by simp
  next
    case (update_failed d1 h err)
    have "db_fails env Insert_user = None"
      using update_failed(2) by (auto simp: insert_user_def split: option.splits)
    then show ?thesis
      using update_failed(4) insert_user_keeps [OF update_failed(2)] by simp
  next
    case (registered d1 d2 h)
    have nf: "db_fails env Insert_user = None"
      using registered(3) by (auto simp: insert_user_def split: option.splits)
    have "users d2 = users (db st) @
        [\<lparr>u_id = default_id env, u_email = User_Email (Body r), u_password_hash = h\<rparr>]"
      using update_used_marks(2) [OF registered(4)] registered(3)
      by (auto simp: insert_user_def split: option.splits)
    then show ?thesis
      using registered(5,6) nf by simp
  qed
  with confirmed show ?thesis by blast
qed

theorem register_marks_used_with_success_witness:
  "RegisterHandler sample_env sample_state (1 * Minute) sample_request new_response =
     (sample_state\<lparr>db := sample_db
        \<lparr>invitation_codes :=
           [\<lparr>ic_id = 1, ic_code = ''abc123'', ic_email = ''a@x.com'', ic_used = True,
             ic_expires_at = Some (2 * Minute)\<rparr>],
         users := users sample_db @
           [\<lparr>u_id = 7, u_email = ''a@x.com'', u_password_hash = ''$2a$10$pw''\<rparr>]\<rparr>\<rparr>,
      \<lparr>status = Some 201, body = [JsonUser (Body sample_request)]\<rparr>) \<and>
   list_all ic_used (invitation_codes (db (fst
        (RegisterHandler sample_env sample_state (1 * Minute) sample_request new_response)))) \<and>
   fst (RegisterHandler (sample_env\<lparr>db_fails := (\<lambda>c. if c = Insert_user
            then Some ''duplicate key'' else None)\<rparr>)
          sample_state (1 * Minute) sample_request new_response) = sample_state"
proof -
  let ?bad = "sample_env\<lparr>db_fails := (\<lambda>c. if c = Insert_user then Some ''duplicate key'' else None)\<rparr>"
  obtain st' w' where run: "RegisterHandler sample_env sample_state (1 * Minute) sample_request
      new_response = (st', w')" by force
  have ok: "status w' = Some 201 \<and> (201::nat) < 400"
    using run sample_registration by simp
  have "\<forall>row\<in>set (invitation_codes (db st')). ic_code row = ''abc123'' \<longrightarrow> ic_used row"
    using ok register_marks_used_with_success [OF run] by (simp add: sample_request_def)
  moreover have "\<forall>row\<in>set (invitation_codes (db st')). ic_code row = ''abc123''"
    using run sample_registration by simp
  ultimately have marked: "list_all ic_used (invitation_codes (db st'))"
    by (simp add: list_all_iff)
  obtain st2 w2 where run2: "RegisterHandler ?bad sample_state (1 * Minute) sample_request
      new_response = (st2, w2)" by force
  have bad: "db_fails ?bad Insert_user \<noteq> None" by simp
  have unchanged: "st2 = sample_state"
    using bad register_marks_used_with_success [OF run2] by blast
  show ?thesis
    using sample_registration run marked run2 unchanged by simp
qed

text \<open>
  C4. When the three queries succeed, the checks answer in this order: no record of the
  claimed code and email, \<^verbatim>\<open>Invalid invitation code\<close> (NotFound); else some such record
  marked used, \<^verbatim>\<open>Used invitation code\<close> (AlreadyUsed); else no such unused record
  within the window, \<^verbatim>\<open>Expired invitation code\<close> (Expired); else the checks pass
  (Accepted). Each of the four outcomes is reached by some input.
\<close>

theorem register_check_order:
  "(db_fails env Select_codeExists = None \<and> db_fails env Select_isCodeUsed = None \<and>
    db_fails env Select_isValidCode = None \<longrightarrow>
      register_checks env d now user w =
        (if \<not> (\<exists>row\<in>set (invitation_codes d).
                  ic_code row = User_Code user \<and> ic_email row = User_Email user)
         then Some (http_Error ''Invalid invitation code'' StatusBadRequest w)
         else if (\<exists>row\<in>set (invitation_codes d).
                  ic_code row = User_Code user \<and> ic_used row \<and> ic_email row = User_Email user)
         then Some (http_Error ''Used invitation code'' StatusBadRequest w)
         else if \<not> (\<exists>row\<in>set (invitation_codes d).
                  ic_code row = User_Code user \<and> \<not> ic_used row \<and> ic_email row = User_Email user \<and>
                  (\<exists>x. ic_expires_at row = Some x \<and> now - 2 * Minute < x))
         then Some (http_Error ''Expired invitation code'' StatusBadRequest w)
         else None)) \<and>
   (\<exists>d now user. register_checks sample_env d now user new_response =
        Some (http_Error ''Invalid invitation code'' StatusBadRequest new_response)) \<and>
   (\<exists>d now user. register_checks sample_env d now user new_response =
        Some (http_Error ''Used invitation code'' StatusBadRequest new_response)) \<and>
   (\<exists>d now user. register_checks sample_env d now user new_response =
        Some (http_Error ''Expired invitation code'' StatusBadRequest new_response)) \<and>
   (\<exists>d now user. register_checks sample_env d now user new_response = None)"
proof -
  have notfound: "register_checks sample_env sample_db 0
      \<lparr>User_Email = ''b@y.com'', User_Password = ''pw'', User_Code = ''abc123''\<rparr> new_response =
        Some (http_Error ''Invalid invitation code'' StatusBadRequest new_response)"
    by (simp add: query_defs sample_defs)
  have used: "register_checks sample_env
      (sample_db\<lparr>invitation_codes := map (\<lambda>row. row\<lparr>ic_used := True\<rparr>) (invitation_codes sample_db)\<rparr>)
      0 (Body sample_request) new_response =
        Some (http_Error ''Used invitation code'' StatusBadRequest new_response)"
    by (simp add: query_defs sample_defs)
  have expired: "register_checks sample_env sample_db (5 * Minute) (Body sample_request) new_response =
        Some (http_Error ''Expired invitation code'' StatusBadRequest new_response)"
    by (simp add: query_defs sample_defs time_defs)
  have accepted: "register_checks sample_env sample_db 0 (Body sample_request) new_response = None"
    by (simp add: query_defs sample_defs time_defs)
  show ?thesis
    using register_checks_eq [of env d now user w] notfound used expired accepted
    by blast
qed

theorem register_check_order_witness:
  "db_fails sample_env Select_codeExists = None \<and>
   db_fails sample_env Select_isCodeUsed = None \<and>
   db_fails sample_env Select_isValidCode = None \<and>
   register_checks sample_env sample_db (5 * Minute) (Body sample_request) new_response =
     Some \<lparr>status = Some 400, body = [Text (''Expired invitation code'' @ [CHR 0x0A])]\<rparr>"
proof -
  have f: "db_fails sample_env Select_codeExists = None \<and>
    db_fails sample_env Select_isCodeUsed = None \<and>
    db_fails sample_env Select_isValidCode = None"
    by (simp add: sample_env_def)
  show ?thesis
    using f register_check_order [of sample_env sample_db "5 * Minute" "Body sample_request"
        new_response]
    by (simp add: sample_db_def sample_request_def time_defs http_Error_new StatusBadRequest_def)
qed

text \<open>
  C5, as amended. The claim says that any second attempt with the same code is answered
  AlreadyUsed. The first check of the source looks for the pair of code and email, so
  an attempt with the same code and another email is answered NotFound. What holds:
  after a registration that was answered 201, whatever requests the server then
  handles, no row of the invitation table is removed or changed other than by setting
  its used flag; a later registration with the same code and the same email is never
  answered 201; and it is answered \<^verbatim>\<open>Used invitation code\<close>, the state unchanged, when
  it is a POST whose first two queries succeed. (The sweep only reads the store:
  \<open>GetExpiredInvitations\<close> returns no new store.)
\<close>

theorem consumed_code_stays_used:
  assumes first: "RegisterHandler env st now r new_response = (st1, w1)"
    and ok: "status w1 = Some StatusCreated"
    and same: "User_Code (Body r') = User_Code (Body r)" "User_Email (Body r') = User_Email (Body r)"
  shows "used_kept (invitation_codes (db st1)) (invitation_codes (db (serve lib st1 reqs))) \<and>
     status (snd (RegisterHandler env' (serve lib st1 reqs) now' r' new_response))
       \<noteq> Some StatusCreated \<and>
     (Method r' = ''POST'' \<and> db_fails env' Select_codeExists = None \<and>
      db_fails env' Select_isCodeUsed = None \<longrightarrow>
        RegisterHandler env' (serve lib st1 reqs) now' r' new_response =
          (serve lib st1 reqs, http_Error ''Used invitation code'' StatusBadRequest new_response))"
proof -
  let ?st2 = "serve lib st1 reqs"
  have kept: "used_kept (invitation_codes (db st1)) (invitation_codes (db ?st2))"
    by (rule serve_kept)
  have "StatusCreated < 400" by (simp add: StatusCreated_def)
  from register_created_rows(1) [OF first ok this]
  obtain row where row: "row \<in> set (invitation_codes (db st1))"
    "ic_code row = User_Code (Body r)" "ic_email row = User_Email (Body r)" "ic_used row"
    by blast
  have row2: "row \<in> set (invitation_codes (db ?st2))"
    using used_kept_row [OF kept row(1) row(4)] .
  have ex1: "list_ex (\<lambda>row. ic_code row = User_Code (Body r') \<and> ic_email row = User_Email (Body r'))
      (invitation_codes (db ?st2))"
    unfolding list_ex_iff using row2 row same by auto
  have ex2: "list_ex (\<lambda>row. ic_code row = User_Code (Body r') \<and> ic_used row = True \<and>
        ic_email row = User_Email (Body r')) (invitation_codes (db ?st2))"
    unfolding list_ex_iff using row2 row same by auto
  have "\<exists>w. register_checks env' (db ?st2) now' (Body r') new_response = Some w \<and>
      status w \<noteq> Some StatusCreated \<and>
      (db_fails env' Select_codeExists = None \<and> db_fails env' Select_isCodeUsed = None \<longrightarrow>
         w = http_Error ''Used invitation code'' StatusBadRequest new_response)"
    using ex1 ex2
    by (auto simp: register_checks_def select_codeExists_def select_isCodeUsed_def http_Error_new
        StatusCreated_def StatusBadRequest_def StatusInternalServerError_def
        split: option.splits)
  then obtain w where w: "register_checks env' (db ?st2) now' (Body r') new_response = Some w"
    "status w \<noteq> Some StatusCreated"
    "db_fails env' Select_codeExists = None \<and> db_fails env' Select_isCodeUsed = None \<longrightarrow>
         w = http_Error ''Used invitation code'' StatusBadRequest new_response" by blast
  have again: "RegisterHandler env' ?st2 now' r' new_response =
      (if Method r' \<noteq> ''POST''
       then (?st2, http_Error ''Only POST method is allowed!'' StatusMethodNotAllowed new_response)
       else (?st2, w))"
    using w(1) by (simp add: RegisterHandler_def)
  have never: "status (snd (RegisterHandler env' ?st2 now' r' new_response)) \<noteq> Some StatusCreated"
    unfolding again using w(2)
    by (simp add: http_Error_new StatusMethodNotAllowed_def StatusCreated_def)
  have used: "Method r' = ''POST'' \<and> db_fails env' Select_codeExists = None \<and>
      db_fails env' Select_isCodeUsed = None \<longrightarrow>
        RegisterHandler env' ?st2 now' r' new_response =
          (?st2, http_Error ''Used invitation code'' StatusBadRequest new_response)"
    unfolding again using w(3) by simp
  from kept never used show ?thesis by blast
qed

theorem consumed_code_stays_used_witness:
  "status (snd (RegisterHandler sample_env sample_state (1 * Minute) sample_request new_response))
     = Some StatusCreated \<and>
   snd (RegisterHandler sample_env
      (serve sample_lib
         (fst (RegisterHandler sample_env sample_state (1 * Minute) sample_request new_response))
         [(sample_env, 90 * Second, sample_request\<lparr>URL_Path := ''/invite''\<rparr>)])
      (100 * Second) sample_request new_response) =
     \<lparr>status = Some 400, body = [Text (''Used invitation code'' @ [CHR 0x0A])]\<rparr>"
proof -
  obtain st1 w1 where run: "RegisterHandler sample_env sample_state (1 * Minute) sample_request
      new_response = (st1, w1)" by force
  have ok: "status w1 = Some StatusCreated"
    using run sample_registration by (simp add: StatusCreated_def)
  have m: "Method sample_request = ''POST''" "db_fails sample_env Select_codeExists = None"
    "db_fails sample_env Select_isCodeUsed = None"
    by (simp_all add: sample_defs)
  show ?thesis
    using run ok m consumed_code_stays_used [OF run ok refl refl, of sample_lib
        "[(sample_env, 90 * Second, sample_request\<lparr>URL_Path := ''/invite''\<rparr>)]"
        sample_env "100 * Second"]
    by (simp add: http_Error_new StatusBadRequest_def)
qed

theorem same_code_other_email_not_found:
  "status (snd (RegisterHandler sample_env sample_state (1 * Minute) sample_request new_response))
     = Some StatusCreated \<and>
   snd (RegisterHandler sample_env
      (fst (RegisterHandler sample_env sample_state (1 * Minute) sample_request new_response))
      (100 * Second)
      (sample_request\<lparr>Body := \<lparr>User_Email = ''b@y.com'', User_Password = ''pw'',
                                  User_Code = ''abc123''\<rparr>\<rparr>) new_response) =
     \<lparr>status = Some 400, body = [Text (''Invalid invitation code'' @ [CHR 0x0A])]\<rparr> \<and>
   \<lparr>status = Some 400, body = [Text (''Invalid invitation code'' @ [CHR 0x0A])]\<rparr> \<noteq>
     http_Error ''Used invitation code'' StatusBadRequest new_response"
  unfolding sample_registration
  by (simp add: RegisterHandler_def query_defs sample_defs http_Error_new StatusCreated_def
      StatusBadRequest_def)

section \<open>Login\<close>

text \<open>
  C8, as amended. The claim says that an unknown account and a wrong password give
  responses that cannot be told apart. The source answers them with two different
  messages. For a POST login request with a bearer token: when no user has the email
  of the request, the answer is 401 with \<^verbatim>\<open>User not found\<close>; when the stored hash is
  found and does not verify the password, the answer carries \<^verbatim>\<open>Invalid credential!\<close>;
  in both cases the state is unchanged (no session is written).
\<close>

theorem login_failures_differ:
  assumes "ExtractTokenFromHeader r \<noteq> []" "Method r = ''POST''"
  shows "((\<forall>row\<in>set (users (db st)). u_email row \<noteq> User_Email (Body r)) \<longrightarrow>
            LoginHandler env st now r new_response =
              (st, \<lparr>status = Some 401, body = [Text (''User not found'' @ [CHR 0x0A])]\<rparr>)) \<and>
         (\<forall>h. select_password_hash env (db st) (User_Email (Body r)) = Inr h \<and>
              \<not> bcrypt_CompareHashAndPassword env h (User_Password (Body r)) \<longrightarrow>
            fst (LoginHandler env st now r new_response) = st \<and>
            body (snd (LoginHandler env st now r new_response)) =
              [Text (''Invalid credential!'' @ [CHR 0x0A])])"
proof -
  have a: "select_password_hash env (db st) (User_Email (Body r)) \<noteq> Inr h"
    if "\<forall>row\<in>set (users (db st)). u_email row \<noteq> User_Email (Body r)" for h
  proof -
    have "filter (\<lambda>row. u_email row = User_Email (Body r)) (users (db st)) = []"
      using that by (simp add: filter_empty_conv)
    then show ?thesis
      by (simp add: select_password_hash_def split: option.splits)
  qed
  show ?thesis
    using assms a
    by (auto simp: LoginHandler_def Let_def http_Error_new StatusUnauthorized_def
        StatusMethodNotAllowed_def split: sum.splits)
qed

theorem login_failures_differ_witness:
  "LoginHandler sample_env sample_state 0
      (sample_request\<lparr>URL_Path := ''/login'',
         Header := [''Authorization'' \<mapsto> [''Bearer h.p.s'']],
         Body := \<lparr>User_Email = ''nobody@x.com'', User_Password = ''secret'', User_Code = []\<rparr>\<rparr>)
      new_response =
     (sample_state, \<lparr>status = Some 401, body = [Text (''User not found'' @ [CHR 0x0A])]\<rparr>) \<and>
   body (snd (LoginHandler sample_env sample_state 0
      (sample_request\<lparr>URL_Path := ''/login'',
         Header := [''Authorization'' \<mapsto> [''Bearer h.p.s'']],
         Body := \<lparr>User_Email = ''u@x.com'', User_Password = ''wrong'', User_Code = []\<rparr>\<rparr>)
      new_response)) = [Text (''Invalid credential!'' @ [CHR 0x0A])]"
proof -
  let ?r = "\<lambda>u. sample_request\<lparr>URL_Path := ''/login'',
         Header := [''Authorization'' \<mapsto> [''Bearer h.p.s'']], Body := u\<rparr>"
  have t: "ExtractTokenFromHeader (?r u) \<noteq> []" for u
    unfolding login_token by simp
  have m: "Method (?r u) = ''POST''" for u
    by (simp add: sample_request_def)
  have unknown: "\<forall>row\<in>set (users (db sample_state)). u_email row \<noteq> ''nobody@x.com''"
    by (simp add: sample_defs)
  have wrong: "select_password_hash sample_env (db sample_state) ''u@x.com'' = Inr ''$2a$10$secret'' \<and>
      \<not> bcrypt_CompareHashAndPassword sample_env ''$2a$10$secret'' ''wrong''"
    by (simp add: select_password_hash_def sample_defs)
  show ?thesis
    using unknown wrong
      login_failures_differ [OF t m, of sample_state
        "\<lparr>User_Email = ''nobody@x.com'', User_Password = ''secret'', User_Code = []\<rparr>"
        sample_env 0]
      login_failures_differ [OF t m, of sample_state
        "\<lparr>User_Email = ''u@x.com'', User_Password = ''wrong'', User_Code = []\<rparr>"
        sample_env 0]
    by simp
qed

theorem login_unknown_vs_wrong_password:
  "snd (LoginHandler sample_env sample_state 0
      (sample_request\<lparr>URL_Path := ''/login'',
         Header := [''Authorization'' \<mapsto> [''Bearer h.p.s'']],
         Body := \<lparr>User_Email = ''nobody@x.com'', User_Password = ''secret'', User_Code = []\<rparr>\<rparr>)
      new_response) =
     \<lparr>status = Some 401, body = [Text (''User not found'' @ [CHR 0x0A])]\<rparr> \<and>
   snd (LoginHandler sample_env sample_state 0
      (sample_request\<lparr>URL_Path := ''/login'',
         Header := [''Authorization'' \<mapsto> [''Bearer h.p.s'']],
         Body := \<lparr>User_Email = ''u@x.com'', User_Password = ''wrong'', User_Code = []\<rparr>\<rparr>)
      new_response) =
     \<lparr>status = Some 405, body = [Text (''Invalid credential!'' @ [CHR 0x0A])]\<rparr>"
  unfolding LoginHandler_def login_token Let_def
  by (simp add: select_password_hash_def http_Error_new
      StatusUnauthorized_def StatusMethodNotAllowed_def sample_defs)

section \<open>Rate limiting\<close>

text \<open>
  C9. An address that the limiter map does not know gets a bucket of capacity 1 created
  full. Of two requests from it at the same instant \<open>t\<close>, the first is passed to the
  wrapped handler, with one token taken from the new bucket, and the second is answered
  429 \<^verbatim>\<open>Rate limit exceeded\<close> without running the handler. At an instant \<open>t'\<close> at least
  one second later, one request is passed to the wrapped handler and the request after
  it at \<open>t'\<close> is answered 429 again. The wrapped handler is any handler that leaves the
  limiter map alone, as the one of the \<^verbatim>\<open>/login\<close> route does.
\<close>

theorem rate_limit_scenario:
  assumes fresh: "ipLimiterMap st0 ip = None"
    and addr: "RemoteAddr r1 = ip" "RemoteAddr r2 = ip" "RemoteAddr r3 = ip" "RemoteAddr r4 = ip"
    and keeps: "\<forall>env st now r w. ipLimiterMap (fst (next env st now r w)) = ipLimiterMap st"
    and later: "t + Second \<le> t'"
    and run: "RateLimitMiddleware next e1 st0 t r1 w = (st1, w1)"
      "RateLimitMiddleware next e2 st1 t r2 w = (st2, w2)"
      "RateLimitMiddleware next e3 st2 t' r3 w = (st3, w3)"
      "RateLimitMiddleware next e4 st3 t' r4 w = (st4, w4)"
  shows "availableTokens (NewBucketWithRate 1 1 t) = capacity (NewBucketWithRate 1 1 t) \<and>
    (st1, w1) = next e1 (st0\<lparr>ipLimiterMap := (ipLimiterMap st0)
        (ip \<mapsto> (NewBucketWithRate 1 1 t)\<lparr>availableTokens := 0\<rparr>)\<rparr>) t r1 w \<and>
    (st2, w2) = (st1, http_Error ''Rate limit exceeded'' StatusTooManyRequests w) \<and>
    (st3, w3) = next e3 (st2\<lparr>ipLimiterMap := (ipLimiterMap st2)
        (ip \<mapsto> (NewBucketWithRate 1 1 t)\<lparr>availableTokens := 0,
                 latestTick := (t' - t) sdiv Second\<rparr>)\<rparr>) t' r3 w \<and>
    (st4, w4) = (st3, http_Error ''Rate limit exceeded'' StatusTooManyRequests w)"
proof -
  let ?b0 = "\<lparr>startTime = t, capacity = 1, quantum = 1, fillInterval = Second,
     availableTokens = 0, latestTick = 0\<rparr>"
  let ?b1 = "\<lparr>startTime = t, capacity = 1, quantum = 1, fillInterval = Second,
     availableTokens = 0, latestTick = (t' - t) sdiv Second\<rparr>"
  have nb: "(NewBucketWithRate 1 1 t)\<lparr>availableTokens := 0\<rparr> = ?b0"
    "(NewBucketWithRate 1 1 t)\<lparr>availableTokens := 0, latestTick := (t' - t) sdiv Second\<rparr> = ?b1"
    by (simp_all add: NewBucketWithRate_def)
  have full: "availableTokens (NewBucketWithRate 1 1 t) = capacity (NewBucketWithRate 1 1 t)"
    by (simp add: NewBucketWithRate_def)
  have same_tick: "TakeAvailable ?b0 t 1 = (?b0, 0)"
    using take_empty_same_tick [of t t] by simp
  have s1: "(st1, w1) = next e1 (st0\<lparr>ipLimiterMap := (ipLimiterMap st0)(ip \<mapsto> ?b0)\<rparr>) t r1 w"
    using run(1) fresh addr(1) by (simp add: RateLimitMiddleware_def take_new)
  have m1: "ipLimiterMap st1 = (ipLimiterMap st0)(ip \<mapsto> ?b0)"
    using keeps s1 by (metis fst_conv state.select_convs(2) state.surjective state.update_convs(2))
  have s2: "(st2, w2) = (st1, http_Error ''Rate limit exceeded'' StatusTooManyRequests w)"
    using run(2) addr(2) m1 limiter_update_same [OF m1]
    by (simp add: RateLimitMiddleware_def same_tick)
  have m2: "ipLimiterMap st2 ip = Some ?b0" using s2 m1 by simp
  have s3: "(st3, w3) = next e3 (st2\<lparr>ipLimiterMap := (ipLimiterMap st2)(ip \<mapsto> ?b1)\<rparr>) t' r3 w"
    using run(3) addr(3) m2 by (simp add: RateLimitMiddleware_def take_refilled [OF later])
  have m3: "ipLimiterMap st3 = (ipLimiterMap st2)(ip \<mapsto> ?b1)"
    using keeps s3 by (metis fst_conv state.select_convs(2) state.surjective state.update_convs(2))
  have s4: "(st4, w4) = (st3, http_Error ''Rate limit exceeded'' StatusTooManyRequests w)"
    using run(4) addr(4) m3 limiter_update_same [OF m3]
    by (simp add: RateLimitMiddleware_def take_empty_same_tick)
  show ?thesis
    unfolding nb using full s1 s2 s3 s4 by (simp add: NewBucketWithRate_def)
qed

theorem rate_limit_scenario_witness:
  "RateLimitMiddleware (AuthMiddleware sample_lib LoginHandler) sample_env sample_state 0
      (sample_request\<lparr>URL_Path := ''/login''\<rparr>) new_response =
     (sample_state\<lparr>ipLimiterMap := [''1.2.3.4:40000'' \<mapsto>
          \<lparr>startTime = 0, capacity = 1, quantum = 1, fillInterval = Second,
            availableTokens = 0, latestTick = 0\<rparr>]\<rparr>,
      \<lparr>status = Some 401, body = [Text (''Authorization header not found'' @ [CHR 0x0A])]\<rparr>) \<and>
   RateLimitMiddleware (AuthMiddleware sample_lib LoginHandler) sample_env
      (sample_state\<lparr>ipLimiterMap := [''1.2.3.4:40000'' \<mapsto>
          \<lparr>startTime = 0, capacity = 1, quantum = 1, fillInterval = Second,
            availableTokens = 0, latestTick = 0\<rparr>]\<rparr>) 0
      (sample_request\<lparr>URL_Path := ''/login''\<rparr>) new_response =
     (sample_state\<lparr>ipLimiterMap := [''1.2.3.4:40000'' \<mapsto>
          \<lparr>startTime = 0, capacity = 1, quantum = 1, fillInterval = Second,
            availableTokens = 0, latestTick = 0\<rparr>]\<rparr>,
      \<lparr>status = Some 429, body = [Text (''Rate limit exceeded'' @ [CHR 0x0A])]\<rparr>) \<and>
   RateLimitMiddleware (AuthMiddleware sample_lib LoginHandler) sample_env
      (sample_state\<lparr>ipLimiterMap := [''1.2.3.4:40000'' \<mapsto>
          \<lparr>startTime = 0, capacity = 1, quantum = 1, fillInterval = Second,
            availableTokens = 0, latestTick = 0\<rparr>]\<rparr>) (1 * Second)
      (sample_request\<lparr>URL_Path := ''/login''\<rparr>) new_response =
     (sample_state\<lparr>ipLimiterMap := [''1.2.3.4:40000'' \<mapsto>
          \<lparr>startTime = 0, capacity = 1, quantum = 1, fillInterval = Second,
            availableTokens = 0, latestTick = 1\<rparr>]\<rparr>,
      \<lparr>status = Some 401, body = [Text (''Authorization header not found'' @ [CHR 0x0A])]\<rparr>) \<and>
   RateLimitMiddleware (AuthMiddleware sample_lib LoginHandler) sample_env
      (sample_state\<lparr>ipLimiterMap := [''1.2.3.4:40000'' \<mapsto>
          \<lparr>startTime = 0, capacity = 1, quantum = 1, fillInterval = Second,
            availableTokens = 0, latestTick = 1\<rparr>]\<rparr>) (1 * Second)
      (sample_request\<lparr>URL_Path := ''/login''\<rparr>) new_response =
     (sample_state\<lparr>ipLimiterMap := [''1.2.3.4:40000'' \<mapsto>
          \<lparr>startTime = 0, capacity = 1, quantum = 1, fillInterval = Second,
            availableTokens = 0, latestTick = 1\<rparr>]\<rparr>,
      \<lparr>status = Some 429, body = [Text (''Rate limit exceeded'' @ [CHR 0x0A])]\<rparr>)"
proof -
  let ?N = "AuthMiddleware sample_lib LoginHandler"
  let ?R = "sample_request\<lparr>URL_Path := ''/login''\<rparr>"
  let ?ip = "''1.2.3.4:40000''"
  have fresh: "ipLimiterMap sample_state ?ip = None"
    by (simp add: sample_state_def)
  have addr: "RemoteAddr ?R = ?ip"
    by (simp add: sample_request_def)
  have keeps: "\<forall>env st now r w. ipLimiterMap (fst (?N env st now r w)) = ipLimiterMap st"
    by (simp add: AuthMiddleware_limiter LoginHandler_limiter)
  have later: "(0::int) + Second \<le> 1 * Second" by simp
  have tick: "(1 * Second - 0) sdiv Second = 1"
    by (simp add: Second_def sdiv_nonneg)
  obtain st1 w1 where r1: "RateLimitMiddleware ?N sample_env sample_state 0 ?R new_response = (st1, w1)"
    by force
  obtain st2 w2 where r2: "RateLimitMiddleware ?N sample_env st1 0 ?R new_response = (st2, w2)"
    by force
  obtain st3 w3 where r3: "RateLimitMiddleware ?N sample_env st2 (1 * Second) ?R new_response = (st3, w3)"
    by force
  obtain st4 w4 where r4: "RateLimitMiddleware ?N sample_env st3 (1 * Second) ?R new_response = (st4, w4)"
    by force
  note sc = rate_limit_scenario [OF fresh addr addr addr addr keeps later r1 r2 r3 r4]
  have e1: "st1 = sample_state\<lparr>ipLimiterMap := [?ip \<mapsto>
          \<lparr>startTime = 0, capacity = 1, quantum = 1, fillInterval = Second,
            availableTokens = 0, latestTick = 0\<rparr>]\<rparr>"
    "w1 = \<lparr>status = Some 401, body = [Text (''Authorization header not found'' @ [CHR 0x0A])]\<rparr>"
    using sc by (simp_all add: login_without_header NewBucketWithRate_def sample_state_def)
  have e2: "st2 = st1" "w2 = \<lparr>status = Some 429, body = [Text (''Rate limit exceeded'' @ [CHR 0x0A])]\<rparr>"
    using sc by (simp_all add: http_Error_new StatusTooManyRequests_def)
  have e3: "st3 = sample_state\<lparr>ipLimiterMap := [?ip \<mapsto>
          \<lparr>startTime = 0, capacity = 1, quantum = 1, fillInterval = Second,
            availableTokens = 0, latestTick = 1\<rparr>]\<rparr>"
    "w3 = \<lparr>status = Some 401, body = [Text (''Authorization header not found'' @ [CHR 0x0A])]\<rparr>"
    using sc e1 e2 tick
    by (simp_all add: login_without_header NewBucketWithRate_def sample_state_def)
  have e4: "st4 = st3" "w4 = \<lparr>status = Some 429, body = [Text (''Rate limit exceeded'' @ [CHR 0x0A])]\<rparr>"
    using sc by (simp_all add: http_Error_new StatusTooManyRequests_def)
  show ?thesis
    using r1 r2 r3 r4 e1 e2 e3 e4 by simp
qed

section \<open>The sweep and the entry point\<close>

text \<open>
  C6. The claim: the sweep runs as a background task from process start, alongside the
  server. In the code the call of \<open>ProcessResendCodes\<close> stands after
  \<^verbatim>\<open>log.Fatal(http.ListenAndServe(...))\<close>, which blocks while the server lives and ends
  the process when the server returns. Whatever the world does, \<open>main\<close> never reaches
  the sweep.
\<close>

theorem sweep_never_reached: "Call_ProcessResendCodes \<notin> set (main wd)"
  by (simp add: main_def SetupDatabase_def log_Fatal_ListenAndServe_def)

theorem sweep_never_reached_witness:
  "main \<lparr>sql_Open_fails = False, db_Ping_fails = False, ListenAndServe_returns = False\<rparr> =
     [Call_SetupDatabase, Call_HandleFunc ''/token'', Call_HandleFunc ''/invite'',
      Call_HandleFunc ''/register'', Call_HandleFunc ''/login'', Call_Println,
      Call_ListenAndServe] \<and>
   Call_ProcessResendCodes \<notin>
     set (main \<lparr>sql_Open_fails = False, db_Ping_fails = False, ListenAndServe_returns = False\<rparr>)"
  using sweep_never_reached
    [of "\<lparr>sql_Open_fails = False, db_Ping_fails = False, ListenAndServe_returns = False\<rparr>"]
  by (simp add: main_def SetupDatabase_def log_Fatal_ListenAndServe_def)

text \<open>
  C7. The claim: after a failed store query the loop sleeps the fixed interval before it
  queries again. In the code the failure branch ends with \<^verbatim>\<open>continue\<close>, which skips the
  \<^verbatim>\<open>time.Sleep\<close> at the end of the loop body: the iteration that follows a failed query
  starts at once, so the next event after the error line is the next query.
\<close>

theorem sweep_requeries_without_sleep:
  "db_fails env Select_expired = Some err \<Longrightarrow>
   ProcessResendCodes ((env, d, now) # rest) =
     Query_expired # Println_query_error err # ProcessResendCodes rest"
  by (simp add: GetExpiredInvitations_def)

theorem sweep_requeries_without_sleep_witness:
  "db_fails store_down Select_expired = Some ''connection refused'' \<and>
   ProcessResendCodes [(store_down, sample_db, 0), (store_down, sample_db, 0)] =
     [Query_expired, Println_query_error ''connection refused'',
      Query_expired, Println_query_error ''connection refused'']"
proof -
  have f: "db_fails store_down Select_expired = Some ''connection refused''"
    by (simp add: store_down_def)
  show ?thesis
    using f sweep_requeries_without_sleep [OF f, of sample_db 0]
    by simp
qed

end
